theory Spec2Isabelle
  imports Main "HOL-Library.Word"
begin

section \<open>Strings and values of the host language\<close>

text \<open>
  A string of the program is a sequence of 16-bit code units. \<open>ascii\<close> writes an
  ASCII literal of the source as such a sequence.
\<close>

type_synonym code_unit = "16 word"
type_synonym jsstring = "code_unit list"

definition ascii :: "string \<Rightarrow> jsstring" where
  "ascii s = map of_char s"

text \<open>
  The values a bundled JSON catalog can hold. The program only observes of a value
  whether it is a string (\<open>typeof value === 'string'\<close>) and whether it is truthy
  (the left operand of \<open>||\<close>), so a number is kept as an integer.
\<close>

datatype json =
    JNull
  | JBool bool
  | JNumber int
  | JString jsstring
  | JArray "json list"
  | JObject "(jsstring \<times> json) list"

fun truthy :: "json \<Rightarrow> bool" where
  "truthy JNull = False"
| "truthy (JBool b) = b"
| "truthy (JNumber n) = (n \<noteq> 0)"
| "truthy (JString s) = (s \<noteq> [])"
| "truthy (JArray xs) = True"
| "truthy (JObject kvs) = True"

text \<open>
  \<open>a || b\<close> on operands of type \<open>string | undefined\<close> (\<open>None\<close> is \<open>undefined\<close>):
  the left operand when it is a non-empty string, the right operand otherwise.
  \<open>orDefault\<close> is the same with a right operand that is a string.
\<close>

definition orElse :: "jsstring option \<Rightarrow> jsstring option \<Rightarrow> jsstring option" where
  "orElse a b = (case a of None \<Rightarrow> b | Some s \<Rightarrow> if s = [] then b else Some s)"

definition orDefault :: "jsstring option \<Rightarrow> jsstring \<Rightarrow> jsstring" where
  "orDefault a d = (case a of None \<Rightarrow> d | Some s \<Rightarrow> if s = [] then d else s)"

text \<open>
  An object with string keys (a catalog, the brand table) is given by the map of its own
  properties. Such an object is an ordinary object: reading a name that is not an own
  property finds the member of that name that the object inherits from
  \<open>Object.prototype\<close>, and only a name that is neither reads as \<open>undefined\<close>.
\<close>

type_synonym catalog = "jsstring \<rightharpoonup> json"

text \<open>
  The members of \<open>Object.prototype\<close>: eleven functions and the accessor
  \<open>__proto__\<close>, whose value on an ordinary object is \<open>Object.prototype\<close> itself.
\<close>

datatype member =
    Constructor
  | HasOwnProperty
  | IsPrototypeOf
  | PropertyIsEnumerable
  | ToLocaleString
  | ToString
  | ValueOf
  | DefineGetter
  | DefineSetter
  | LookupGetter
  | LookupSetter
  | Proto

definition Object_prototype :: "jsstring \<rightharpoonup> member" where
  "Object_prototype =
     map_of
       [(ascii ''constructor'', Constructor),
        (ascii ''hasOwnProperty'', HasOwnProperty),
        (ascii ''isPrototypeOf'', IsPrototypeOf),
        (ascii ''propertyIsEnumerable'', PropertyIsEnumerable),
        (ascii ''toLocaleString'', ToLocaleString),
        (ascii ''toString'', ToString),
        (ascii ''valueOf'', ValueOf),
        (ascii ''__defineGetter__'', DefineGetter),
        (ascii ''__defineSetter__'', DefineSetter),
        (ascii ''__lookupGetter__'', LookupGetter),
        (ascii ''__lookupSetter__'', LookupSetter),
        (ascii ''__proto__'', Proto)]"

text \<open>\<open>obj[name]\<close>: the own property, else the inherited member, else \<open>undefined\<close>.\<close>

datatype 'a property = Undefined | Own 'a | Inherited member

definition getProperty :: "(jsstring \<rightharpoonup> 'a) \<Rightarrow> jsstring \<Rightarrow> 'a property" where
  "getProperty obj name =
     (case obj name of
        Some v \<Rightarrow> Own v
      | None \<Rightarrow> (case Object_prototype name of Some m \<Rightarrow> Inherited m | None \<Rightarrow> Undefined))"

section \<open>The language registry (module \<open>./languages\<close>)\<close>

text \<open>
  Modelled from the spec: the helper \<open>keyMirror\<close> (\<open>@utils/key_mirror\<close>) is not among
  the sources. The registry it builds is "a static registry mapping known language
  identifiers to supported canonical locale codes" in which every canonical locale
  resolves to itself: each listed key is mapped to itself, and a lookup of any other
  identifier finds nothing ("pure lookup, no side effects, no failure mode beyond not
  found").
\<close>

definition keyMirror :: "jsstring list \<Rightarrow> (jsstring \<rightharpoonup> jsstring)" where
  "keyMirror keys = map_of (map (\<lambda>k. (k, k)) keys)"

definition languages :: "jsstring \<rightharpoonup> jsstring" where
  "languages = keyMirror [ascii ''en'', ascii ''fa'']"

abbreviation availableLanguages :: "jsstring \<rightharpoonup> jsstring" where
  "availableLanguages \<equiv> languages"

section \<open>Locale resolution (module \<open>app/i18n/index.ts\<close>)\<close>

definition PRIMARY_LOCALE :: jsstring where
  "PRIMARY_LOCALE = ascii ''fa''"

text \<open>\<open>lang.split('-')[0]\<close>: the text before the first \<open>-\<close> (code unit 0x2D).\<close>

definition languageCode :: "jsstring \<Rightarrow> jsstring" where
  "languageCode lang = takeWhile (\<lambda>c. c \<noteq> 0x2D) lang"

definition getLocaleFromLanguage :: "jsstring \<Rightarrow> jsstring" where
  "getLocaleFromLanguage lang =
     orDefault (orElse (availableLanguages lang) (availableLanguages (languageCode lang)))
       PRIMARY_LOCALE"

section \<open>Branding\<close>

text \<open>
  The Persian brand name of the table below, by its code units: three words of six,
  six and five letters, separated by spaces.
\<close>

definition FA_BRAND_NAME :: jsstring where
  "FA_BRAND_NAME =
     [0x62F, 0x628, 0x633, 0x62A, 0x627, 0x646, 0x20,
      0x627, 0x646, 0x62F, 0x6CC, 0x634, 0x647, 0x20,
      0x62D, 0x633, 0x6CC, 0x646, 0x6CC]"

definition BRAND_NAME_PER_LOCALE :: "jsstring \<rightharpoonup> jsstring" where
  "BRAND_NAME_PER_LOCALE =
     [ascii ''en'' \<mapsto> ascii ''Andisheh Hosseini Elementary'',
      ascii ''fa'' \<mapsto> FA_BRAND_NAME]"

text \<open>
  \<open>MATTERMOST_REGEX = /Mattermost/gi\<close>. The pattern is a literal; under the flag \<open>i\<close>
  (without \<open>u\<close>) two code units match when their canonical forms are equal, and a code
  unit outside ASCII never has an ASCII canonical form. Against this ASCII pattern the
  canonical form is therefore the ASCII upper-case letter of an ASCII lower-case letter
  and the code unit itself otherwise.
\<close>

definition MATTERMOST_REGEX :: jsstring where
  "MATTERMOST_REGEX = ascii ''Mattermost''"

definition canonicalize :: "code_unit \<Rightarrow> code_unit" where
  "canonicalize ch = (if 0x61 \<le> ch \<and> ch \<le> 0x7A then ch - 0x20 else ch)"

text \<open>\<open>matchesAt p s\<close>: the pattern \<open>p\<close> matches at the start of \<open>s\<close>.\<close>

fun matchesAt :: "jsstring \<Rightarrow> jsstring \<Rightarrow> bool" where
  "matchesAt [] s = True"
| "matchesAt (p # ps) [] = False"
| "matchesAt (p # ps) (c # cs) = (canonicalize c = canonicalize p \<and> matchesAt ps cs)"

text \<open>
  \<open>value.match(MATTERMOST_REGEX)\<close>: with the flag \<open>g\<close> the scan starts at index 0,
  takes the leftmost match, continues behind it, and returns the matched texts, or
  \<open>null\<close> (\<open>None\<close>) when there is none.
\<close>

function allMatches :: "jsstring \<Rightarrow> jsstring list" where
  "allMatches [] = []"
| "allMatches (c # cs) =
     (if matchesAt MATTERMOST_REGEX (c # cs)
      then take (length MATTERMOST_REGEX) (c # cs)
             # allMatches (drop (length MATTERMOST_REGEX) (c # cs))
      else allMatches cs)"
  by pat_completeness auto
termination
  by (relation "measure length") (auto simp: MATTERMOST_REGEX_def ascii_def)

definition String_match :: "jsstring \<Rightarrow> jsstring list option" where
  "String_match s = (case allMatches s of [] \<Rightarrow> None | m # ms \<Rightarrow> Some (m # ms))"

text \<open>
  \<open>value.replace(MATTERMOST_REGEX, b)\<close> for a string \<open>b\<close>: the same scan, each match
  replaced by the replacement text. A replacement text without \<open>$\<close> is inserted as it
  is; neither brand name contains one.
\<close>

function String_replace :: "jsstring \<Rightarrow> jsstring \<Rightarrow> jsstring" where
  "String_replace [] b = []"
| "String_replace (c # cs) b =
     (if matchesAt MATTERMOST_REGEX (c # cs)
      then b @ String_replace (drop (length MATTERMOST_REGEX) (c # cs)) b
      else c # String_replace cs b)"
  by pat_completeness auto
termination
  by (relation "measure (\<lambda>(s, b). length s)") (auto simp: MATTERMOST_REGEX_def ascii_def)

text \<open>
  \<open>value.replace(MATTERMOST_REGEX, f)\<close> for a function \<open>f\<close>: the same scan, each
  match replaced by the string of what \<open>f\<close> returns for it, the text inserted as it is.
  The call of \<open>f\<close> may throw (\<open>None\<close>), and then the replacement throws.
\<close>

function String_replace_function ::
  "jsstring \<Rightarrow> (jsstring \<Rightarrow> jsstring option) \<Rightarrow> jsstring option" where
  "String_replace_function [] f = Some []"
| "String_replace_function (c # cs) f =
     (if matchesAt MATTERMOST_REGEX (c # cs)
      then (case f (take (length MATTERMOST_REGEX) (c # cs)) of
              None \<Rightarrow> None
            | Some t \<Rightarrow>
                map_option (\<lambda>r. t @ r)
                  (String_replace_function (drop (length MATTERMOST_REGEX) (c # cs)) f))
      else map_option (\<lambda>r. c # r) (String_replace_function cs f))"
  by pat_completeness auto
termination
  by (relation "measure (\<lambda>(s, f). length s)") (auto simp: MATTERMOST_REGEX_def ascii_def)

text \<open>
  An inherited function called as the replacer: \<open>replace\<close> calls it with \<open>this\<close>
  undefined and the matched text as first argument, and inserts the string of the
  result. \<open>Object(matched)\<close> is a String object whose string is the matched text;
  \<open>isPrototypeOf\<close> returns \<open>false\<close> for an argument that is not an object;
  \<open>toString\<close> returns \<open>[object Undefined]\<close>; every other member converts \<open>this\<close> to
  an object first and throws a \<open>TypeError\<close> (\<open>None\<close>). \<open>__proto__\<close> is not called (see
  below); it is listed with the throwing members only to make the function total.
\<close>

fun callMember :: "member \<Rightarrow> jsstring \<Rightarrow> jsstring option" where
  "callMember Constructor matched = Some matched"
| "callMember IsPrototypeOf matched = Some (ascii ''false'')"
| "callMember ToString matched = Some (ascii ''[object Undefined]'')"
| "callMember m matched = None"

text \<open>
  \<open>BRAND_NAME_PER_LOCALE[locale] || BRAND_NAME_PER_LOCALE[PRIMARY_LOCALE]\<close>: the left
  operand when it is truthy (a non-empty string, or an inherited member: a function or
  an object), the right operand otherwise.
\<close>

fun truthyProperty :: "jsstring property \<Rightarrow> bool" where
  "truthyProperty Undefined = False"
| "truthyProperty (Own s) = (s \<noteq> [])"
| "truthyProperty (Inherited m) = True"

definition brandName :: "jsstring \<Rightarrow> jsstring property" where
  "brandName locale =
     (if truthyProperty (getProperty BRAND_NAME_PER_LOCALE locale)
      then getProperty BRAND_NAME_PER_LOCALE locale
      else getProperty BRAND_NAME_PER_LOCALE PRIMARY_LOCALE)"

text \<open>
  \<open>value.replace(MATTERMOST_REGEX, brandName)\<close> for the value \<open>brandName\<close> has: a
  string is the replacement text; an inherited function is called for every match;
  \<open>undefined\<close> and the object \<open>Object.prototype\<close> (the value of \<open>__proto__\<close>) are not
  callable and are converted to the replacement texts \<open>undefined\<close> and
  \<open>[object Object]\<close>. \<open>None\<close>: the replacement throws a \<open>TypeError\<close>.
\<close>

fun replaceWith :: "jsstring \<Rightarrow> jsstring property \<Rightarrow> jsstring option" where
  "replaceWith s Undefined = Some (String_replace s (ascii ''undefined''))"
| "replaceWith s (Own b) = Some (String_replace s b)"
| "replaceWith s (Inherited Proto) = Some (String_replace s (ascii ''[object Object]''))"
| "replaceWith s (Inherited m) = String_replace_function s (callMember m)"

text \<open>
  The callback of \<open>Object.entries(translations).map(...)\<close>; \<open>None\<close>: the callback
  throws.
\<close>

definition brandEntry :: "jsstring property \<Rightarrow> jsstring \<times> json \<Rightarrow> (jsstring \<times> json) option" where
  "brandEntry brand entry =
     (case entry of
        (key, JString s) \<Rightarrow>
          (if String_match s \<noteq> None
           then map_option (\<lambda>t. (key, JString t)) (replaceWith s brand)
           else Some (key, JString s))
      | (key, v) \<Rightarrow> Some (key, v))"

section \<open>The process: objects, locale data, log, date library\<close>

text \<open>
  The five locale-data modules of a locale that \<open>loadTranslation\<close> requires, and the
  errors of the program: the one a \<open>require\<close> throws, and the \<open>TypeError\<close> of an
  inherited function called on \<open>undefined\<close>.
\<close>

datatype polyfill = PluralRules | NumberFormat | DateTimeFormat | ListFormat | RelativeTimeFormat

type_synonym module = "polyfill \<times> jsstring"

datatype js_error = RequireError module | TypeError

type_synonym ref = nat

text \<open>
  Catalog objects live in a store and are passed by reference. \<open>nextRef\<close> is the first
  address not yet allocated. \<open>throwing\<close> and \<open>deviceLanguageTag\<close> describe the
  installation (which locale-data modules throw when required; the language tag of the
  first device locale, if any) and are never written.
\<close>

record world =
  heap :: "ref \<Rightarrow> catalog"
  nextRef :: ref
  throwing :: "module \<Rightarrow> bool"
  deviceLanguageTag :: "jsstring option"
  localeData :: "module set"
  errorLog :: "(jsstring \<times> js_error) list"
  momentLocale :: jsstring

text \<open>
  The two imported catalogs \<open>en.json\<close> and \<open>fa.json\<close> are the first two objects of
  the store; their content is not among the sources and is left open.
\<close>

definition en :: ref where
  "en = 0"

definition fa :: ref where
  "fa = 1"

text \<open>A computation either returns or throws, and leaves a world behind in both cases.\<close>

type_synonym 'a outcome = "(js_error + 'a) \<times> world"

text \<open>
  \<open>require('@formatjs/intl-.../locale-data/...')\<close>: the module of an external package
  either throws or registers its locale data with the formatting runtime.
\<close>

definition require :: "module \<Rightarrow> world \<Rightarrow> unit outcome" where
  "require m w =
     (if throwing w m then (Inl (RequireError m), w)
      else (Inr (), w\<lparr>localeData := insert m (localeData w)\<rparr>))"

fun requireAll :: "module list \<Rightarrow> world \<Rightarrow> unit outcome" where
  "requireAll [] w = (Inr (), w)"
| "requireAll (m # ms) w =
     (case require m w of
        (Inl e, w') \<Rightarrow> (Inl e, w')
      | (Inr u, w') \<Rightarrow> requireAll ms w')"

definition localeDataModules :: "jsstring \<Rightarrow> module list" where
  "localeDataModules locale =
     [(PluralRules, locale), (NumberFormat, locale), (DateTimeFormat, locale),
      (ListFormat, locale), (RelativeTimeFormat, locale)]"

text \<open>
  Modelled from the spec: the logging facility \<open>logError\<close> (\<open>@utils/log\<close>) is not
  among the sources. A failure is "reported through a logging facility (message + error
  detail)" and the report does "not alter the function's return contract": the call
  records the pair and returns.
\<close>

definition logError :: "jsstring \<Rightarrow> js_error \<Rightarrow> world \<Rightarrow> world" where
  "logError msg e w = w\<lparr>errorLog := errorLog w @ [(msg, e)]\<rparr>"

text \<open>
  \<open>Object.fromEntries(Object.entries(t).map(f))\<close> for a callback \<open>f\<close> that keeps the
  key of its entry: it throws when \<open>f\<close> throws at an entry of \<open>t\<close> (\<open>None\<close>), and is
  otherwise the object that holds, for every entry of \<open>t\<close>, the entry \<open>f\<close> returns. It
  is given key by key.
\<close>

definition mapEntries ::
  "(jsstring \<times> json \<Rightarrow> (jsstring \<times> json) option) \<Rightarrow> catalog \<Rightarrow> catalog option" where
  "mapEntries f t =
     (if \<exists>key v. t key = Some v \<and> f (key, v) = None then None
      else Some (\<lambda>key. case t key of
                          None \<Rightarrow> None
                        | Some v \<Rightarrow> map_option snd (f (key, v))))"

text \<open>
  \<open>applyBranding\<close> reads the object \<open>translations\<close> and returns a new object, or
  throws the \<open>TypeError\<close> of the callback.
\<close>

definition applyBranding :: "ref \<Rightarrow> jsstring \<Rightarrow> world \<Rightarrow> ref outcome" where
  "applyBranding translations locale w =
     (let brand = brandName locale in
      case mapEntries (brandEntry brand) (heap w translations) of
        None \<Rightarrow> (Inl TypeError, w)
      | Some obj \<Rightarrow>
          (Inr (nextRef w),
           w\<lparr>heap := (heap w)(nextRef w := obj), nextRef := Suc (nextRef w)\<rparr>))"

text \<open>The body of the \<open>try\<close> block: the \<open>switch\<close>, then the branding.\<close>

definition loadTranslation_try :: "jsstring option \<Rightarrow> world \<Rightarrow> ref outcome" where
  "loadTranslation_try locale w =
     (case (if locale = Some (ascii ''fa'')
            then (case requireAll (localeDataModules (ascii ''fa'')) w of
                    (Inl e, w') \<Rightarrow> (Inl e, w')
                  | (Inr u, w') \<Rightarrow> (Inr fa, w'))
            else (case requireAll (localeDataModules (ascii ''en'')) w of
                    (Inl e, w') \<Rightarrow> (Inl e, w')
                  | (Inr u, w') \<Rightarrow> (Inr en, w'))) of
        (Inl e, w') \<Rightarrow> (Inl e, w')
      | (Inr translations, w') \<Rightarrow>
          applyBranding translations (orDefault locale PRIMARY_LOCALE) w')"

definition loadTranslation :: "jsstring option \<Rightarrow> world \<Rightarrow> ref outcome" where
  "loadTranslation locale w =
     (case loadTranslation_try locale w of
        (Inr r, w') \<Rightarrow> (Inr r, w')
      | (Inl e, w') \<Rightarrow>
          applyBranding en PRIMARY_LOCALE (logError (ascii ''NO Translation found'') e w'))"

definition getTranslations :: "jsstring \<Rightarrow> world \<Rightarrow> ref outcome" where
  "getTranslations lang w = loadTranslation (Some (getLocaleFromLanguage lang)) w"

text \<open>
  What \<open>getLocalizedMessage\<close> can return: a value of the catalog or a string, or a
  member of \<open>Object.prototype\<close> (a function or, for \<open>__proto__\<close>, an object).
\<close>

datatype jsvalue = Data json | Member member

text \<open>
  \<open>translations[id] || defaultMessage || ''\<close>: an inherited member is truthy and is
  returned as it is.
\<close>

definition lookupMessage :: "catalog \<Rightarrow> jsstring \<Rightarrow> jsstring option \<Rightarrow> jsvalue" where
  "lookupMessage translations ident defaultMessage =
     (case getProperty translations ident of
        Undefined \<Rightarrow> Data (JString (orDefault defaultMessage []))
      | Own v \<Rightarrow> if truthy v then Data v else Data (JString (orDefault defaultMessage []))
      | Inherited m \<Rightarrow> Member m)"

definition getLocalizedMessage ::
  "jsstring \<Rightarrow> jsstring \<Rightarrow> jsstring option \<Rightarrow> world \<Rightarrow> jsvalue outcome" where
  "getLocalizedMessage lang ident defaultMessage w =
     (let locale = getLocaleFromLanguage lang in
      case getTranslations locale w of
        (Inl e, w') \<Rightarrow> (Inl e, w')
      | (Inr translations, w') \<Rightarrow>
          (Inr (lookupMessage (heap w' translations) ident defaultMessage), w'))"

text \<open>
  \<open>deviceLocale = getLocales()[0]?.languageTag || PRIMARY_LOCALE\<close> and
  \<open>DEFAULT_LOCALE = getLocaleFromLanguage(deviceLocale)\<close>.
\<close>

definition deviceLocale :: "world \<Rightarrow> jsstring" where
  "deviceLocale w = orDefault (deviceLanguageTag w) PRIMARY_LOCALE"

definition DEFAULT_LOCALE :: "world \<Rightarrow> jsstring" where
  "DEFAULT_LOCALE w = getLocaleFromLanguage (deviceLocale w)"

text \<open>
  Modelled from the spec: \<open>moment.locale\<close> belongs to the external date library; it
  "sets the process-wide locale" of that library to the code it is given.
\<close>

definition moment_locale :: "jsstring \<Rightarrow> world \<Rightarrow> world" where
  "moment_locale key w = w\<lparr>momentLocale := key\<rparr>"

text \<open>\<open>moment.locale(locale?.split('-')[0] || DEFAULT_LOCALE.split('-')[0])\<close>.\<close>

definition resetMomentLocale :: "jsstring option \<Rightarrow> world \<Rightarrow> world" where
  "resetMomentLocale locale w =
     moment_locale
       (orDefault (map_option languageCode locale) (languageCode (DEFAULT_LOCALE w))) w"

section \<open>Vocabulary of the specification\<close>

text \<open>
  The resolution algorithm in the words of the specification: the full tag first, then
  the bare language code, then the primary locale.
\<close>

definition resolve_spec :: "jsstring \<Rightarrow> jsstring" where
  "resolve_spec t =
     (case languages t of
        Some l \<Rightarrow> l
      | None \<Rightarrow>
          (case languages (languageCode t) of
             Some l \<Rightarrow> l
           | None \<Rightarrow> PRIMARY_LOCALE))"

text \<open>
  \<open>hasToken s\<close>: the string \<open>s\<close> contains the legacy product name in some casing.
  \<open>caseVariant m\<close>: the string \<open>m\<close> is the legacy product name in some casing.
\<close>

fun hasToken :: "jsstring \<Rightarrow> bool" where
  "hasToken [] = False"
| "hasToken (c # cs) = (matchesAt MATTERMOST_REGEX (c # cs) \<or> hasToken cs)"

definition caseVariant :: "jsstring \<Rightarrow> bool" where
  "caseVariant m = (length m = length MATTERMOST_REGEX \<and> matchesAt MATTERMOST_REGEX m)"

text \<open>
  \<open>weave s0 [(m1, s1), ..., (mn, sn)]\<close> is the text \<open>s0 m1 s1 ... mn sn\<close>: pieces
  \<open>m\<close> separated by the texts \<open>s\<close>.
\<close>

fun weave :: "jsstring \<Rightarrow> (jsstring \<times> jsstring) list \<Rightarrow> jsstring" where
  "weave s0 [] = s0"
| "weave s0 ((m, s) # segs) = s0 @ m @ weave s segs"

text \<open>
  \<open>brandedWith b t\<close>: the catalog \<open>t\<close> with, in every string value, every occurrence of
  the legacy product name replaced by the text \<open>b\<close>.
\<close>

fun brandValue :: "jsstring \<Rightarrow> json \<Rightarrow> json" where
  "brandValue b (JString s) = JString (String_replace s b)"
| "brandValue b v = v"

definition brandedWith :: "jsstring \<Rightarrow> catalog \<Rightarrow> catalog" where
  "brandedWith b t = (\<lambda>key. map_option (brandValue b) (t key))"

text \<open>\<open>typeof v === 'string'\<close>.\<close>

fun isString :: "json \<Rightarrow> bool" where
  "isString (JString s) = True"
| "isString v = False"

text \<open>
  A world right after the module is loaded: the two imported catalogs, nothing else
  allocated, no locale data registered, nothing logged, the date library at its own
  default \<open>en\<close>.
\<close>

definition initialWorld ::
  "catalog \<Rightarrow> catalog \<Rightarrow> (module \<Rightarrow> bool) \<Rightarrow> jsstring option \<Rightarrow> world" where
  "initialWorld en_json fa_json broken tag =
     \<lparr>heap = (\<lambda>r. if r = en then en_json else if r = fa then fa_json else Map.empty),
      nextRef = 2,
      throwing = broken,
      deviceLanguageTag = tag,
      localeData = {},
      errorLog = [],
      momentLocale = ascii ''en''\<rparr>"

text \<open>
  Two small catalogs and three installations (every locale-data module loads; one module
  of \<open>fa\<close> throws; one module of \<open>en\<close> throws) on which the results below are
  evaluated.
\<close>

definition example_en :: catalog where
  "example_en =
     [ascii ''about'' \<mapsto> JString (ascii ''Mattermost and mATTERMOST Desktop''),
      ascii ''hello'' \<mapsto> JString (ascii ''Hello''),
      ascii ''count'' \<mapsto> JNumber 3]"

definition example_fa :: catalog where
  "example_fa =
     [ascii ''hello'' \<mapsto> JString (ascii ''Salam''),
      ascii ''blank'' \<mapsto> JString []]"

definition noneBroken :: "module \<Rightarrow> bool" where
  "noneBroken m = False"

definition faBroken :: "module \<Rightarrow> bool" where
  "faBroken m = (m = (PluralRules, ascii ''fa''))"

definition enBroken :: "module \<Rightarrow> bool" where
  "enBroken m = (m = (DateTimeFormat, ascii ''en''))"

definition example_world :: "(module \<Rightarrow> bool) \<Rightarrow> world" where
  "example_world broken = initialWorld example_en example_fa broken None"

text \<open>
  A catalog of \<open>fa\<close> that has a message under the key \<open>constructor\<close>, the name of an
  inherited member.
\<close>

definition example_fa_constructor :: catalog where
  "example_fa_constructor = [ascii ''constructor'' \<mapsto> JString []]"

definition example_world_constructor :: world where
  "example_world_constructor = initialWorld example_en example_fa_constructor noneBroken None"

section \<open>Locale resolution\<close>

lemma languages_Some:
  "languages k = Some l \<longleftrightarrow>
     (k = ascii ''en'' \<and> l = ascii ''en'') \<or> (k = ascii ''fa'' \<and> l = ascii ''fa'')"
  by (auto simp: languages_def keyMirror_def ascii_def)

lemma languages_nonempty: "languages k = Some l \<Longrightarrow> l \<noteq> []"
  by (auto simp: languages_Some ascii_def)

lemma getLocaleFromLanguage_cases:
  "getLocaleFromLanguage t = ascii ''en'' \<or> getLocaleFromLanguage t = ascii ''fa''"
  unfolding getLocaleFromLanguage_def orDefault_def orElse_def PRIMARY_LOCALE_def
  by (auto split: option.splits simp: languages_Some)

lemma getLocaleFromLanguage_en: "getLocaleFromLanguage (ascii ''en'') = ascii ''en''"
  by (simp add: getLocaleFromLanguage_def orDefault_def orElse_def languages_def
      keyMirror_def ascii_def)

lemma getLocaleFromLanguage_fa: "getLocaleFromLanguage (ascii ''fa'') = ascii ''fa''"
  by (simp add: getLocaleFromLanguage_def orDefault_def orElse_def languages_def
      keyMirror_def ascii_def)

lemma getLocaleFromLanguage_canonical:
  "getLocaleFromLanguage (getLocaleFromLanguage t) = getLocaleFromLanguage t"
  using getLocaleFromLanguage_cases [of t] getLocaleFromLanguage_en getLocaleFromLanguage_fa
  by auto

text \<open>
  C1. For every tag \<open>t\<close>, \<open>getLocaleFromLanguage t\<close> is the result of the algorithm of
  the specification (the full tag is looked up in the registry first, then the text
  before the first \<open>-\<close>, and the primary locale \<open>fa\<close> is the result when neither is
  registered). The result is always \<open>en\<close> or \<open>fa\<close>, and each of the two resolves to
  itself. The function has no failing branch.
\<close>

theorem getLocaleFromLanguage_resolves:
  "getLocaleFromLanguage t = resolve_spec t
   \<and> getLocaleFromLanguage t \<in> {ascii ''en'', ascii ''fa''}
   \<and> getLocaleFromLanguage (ascii ''en'') = ascii ''en''
   \<and> getLocaleFromLanguage (ascii ''fa'') = ascii ''fa''
   \<and> PRIMARY_LOCALE = ascii ''fa''"
proof -
  have "getLocaleFromLanguage t = resolve_spec t"
    unfolding getLocaleFromLanguage_def resolve_spec_def orDefault_def orElse_def
    by (auto split: option.splits dest: languages_nonempty)
  then show ?thesis
    using getLocaleFromLanguage_cases [of t] getLocaleFromLanguage_en getLocaleFromLanguage_fa
    by (simp add: PRIMARY_LOCALE_def)
qed

theorem getLocaleFromLanguage_resolves_witness:
  "getLocaleFromLanguage (ascii ''en-US'') = ascii ''en''
   \<and> resolve_spec (ascii ''en-US'') = ascii ''en''
   \<and> getLocaleFromLanguage (ascii ''de-DE'') = ascii ''fa''"
proof -
  have "resolve_spec (ascii ''en-US'') = ascii ''en''"
    by (simp add: resolve_spec_def languages_def keyMirror_def languageCode_def ascii_def)
  moreover have "resolve_spec (ascii ''de-DE'') = ascii ''fa''"
    by (simp add: resolve_spec_def languages_def keyMirror_def languageCode_def ascii_def
        PRIMARY_LOCALE_def)
  ultimately show ?thesis
    using getLocaleFromLanguage_resolves [of "ascii ''en-US''"]
      getLocaleFromLanguage_resolves [of "ascii ''de-DE''"]
    by simp
qed

section \<open>Matching and replacing the legacy product name\<close>

lemma length_MATTERMOST_REGEX: "length MATTERMOST_REGEX = 10"
  by (simp add: MATTERMOST_REGEX_def ascii_def)

lemma canonical_MATTERMOST_REGEX:
  "map canonicalize MATTERMOST_REGEX = [0x4D, 0x41, 0x54, 0x54, 0x45, 0x52, 0x4D, 0x4F, 0x53, 0x54]"
  by (simp add: MATTERMOST_REGEX_def ascii_def canonicalize_def)

lemma matchesAt_iff:
  "matchesAt p s \<longleftrightarrow> length p \<le> length s \<and> map canonicalize (take (length p) s) = map canonicalize p"
  by (induction p s rule: matchesAt.induct) auto

lemma matchesAt_append:
  "matchesAt p (u @ z) =
     (if length p \<le> length u then matchesAt p u
      else matchesAt (take (length u) p) u \<and> matchesAt (drop (length u) p) z)"
proof (induction p u rule: matchesAt.induct)
  case (1 s)
  then show ?case by simp
next
  case (2 p ps)
  then show ?case by simp
next
  case (3 p ps c cs)
  then show ?case by auto
qed

lemma matchesAt_prefix: "matchesAt p u \<Longrightarrow> matchesAt p (u @ z)"
  by (induction p u rule: matchesAt.induct) auto

lemma no_border:
  assumes "0 < k" "k < 10" "caseVariant m"
  shows "\<not> matchesAt (drop k MATTERMOST_REGEX) (m @ z)"
proof
  assume a: "matchesAt (drop k MATTERMOST_REGEX) (m @ z)"
  from assms(3) have lm: "length m = 10" and mm: "matchesAt MATTERMOST_REGEX m"
    by (simp_all add: caseVariant_def length_MATTERMOST_REGEX)
  from mm have "map canonicalize (take (length MATTERMOST_REGEX) m) = map canonicalize MATTERMOST_REGEX"
    using matchesAt_iff by blast
  with lm have cm: "map canonicalize m = map canonicalize MATTERMOST_REGEX"
    by (simp add: length_MATTERMOST_REGEX)
  from a have "map canonicalize (take (10 - k) (m @ z)) = map canonicalize (drop k MATTERMOST_REGEX)"
    by (simp add: matchesAt_iff length_MATTERMOST_REGEX)
  with lm assms have "take (10 - k) (map canonicalize m) = drop k (map canonicalize MATTERMOST_REGEX)"
    by (simp add: take_map drop_map)
  then have e: "take (10 - k) (map canonicalize MATTERMOST_REGEX) = drop k (map canonicalize MATTERMOST_REGEX)"
    by (simp add: cm)
  from assms(1,2) consider "k = 1" | "k = 2" | "k = 3" | "k = 4" | "k = 5" | "k = 6" | "k = 7" | "k = 8" | "k = 9"
    by linarith
  then show False
    using e by cases (simp_all add: canonical_MATTERMOST_REGEX)
qed

lemma hasToken_append_left: "hasToken s \<Longrightarrow> hasToken (s @ z)"
  by (induction s) (auto dest: matchesAt_prefix [where z = z])

lemma allMatches_empty_iff: "allMatches s = [] \<longleftrightarrow> \<not> hasToken s"
  by (induction s rule: allMatches.induct) auto

lemma String_match_iff: "String_match s \<noteq> None \<longleftrightarrow> hasToken s"
  using allMatches_empty_iff [of s] by (cases "allMatches s") (auto simp: String_match_def)

lemma String_replace_free: "\<not> hasToken s \<Longrightarrow> String_replace s b = s"
  by (induction s) auto

lemma String_replace_match:
  assumes "caseVariant m"
  shows "String_replace (m @ rest) b = b @ String_replace rest b"
proof -
  from assms have lm: "length m = 10" and mm: "matchesAt MATTERMOST_REGEX m"
    by (simp_all add: caseVariant_def length_MATTERMOST_REGEX)
  then obtain c cs where m: "m = c # cs" by (cases m) auto
  from mm have "matchesAt MATTERMOST_REGEX (c # (cs @ rest))"
    using matchesAt_prefix [of MATTERMOST_REGEX m rest] m by simp
  then show ?thesis
    using lm m by (simp add: length_MATTERMOST_REGEX)
qed

lemma no_straddle:
  assumes "\<not> matchesAt MATTERMOST_REGEX (c # s)" "caseVariant m"
  shows "\<not> matchesAt MATTERMOST_REGEX (c # s @ m @ rest)"
proof
  assume a: "matchesAt MATTERMOST_REGEX (c # s @ m @ rest)"
  then have a': "matchesAt MATTERMOST_REGEX ((c # s) @ (m @ rest))" by simp
  show False
  proof (cases "10 \<le> length (c # s)")
    case True
    then show ?thesis
      using a' assms(1) matchesAt_append [of MATTERMOST_REGEX "c # s" "m @ rest"]
      by (simp add: length_MATTERMOST_REGEX)
  next
    case False
    then have "matchesAt (drop (length (c # s)) MATTERMOST_REGEX) (m @ rest)"
      using a' matchesAt_append [of MATTERMOST_REGEX "c # s" "m @ rest"]
      by (simp add: length_MATTERMOST_REGEX)
    moreover have "0 < length (c # s)" "length (c # s) < 10" using False by simp_all
    ultimately show ?thesis using no_border assms(2) by blast
  qed
qed

lemma String_replace_segment:
  assumes "\<not> hasToken s" "caseVariant m"
  shows "String_replace (s @ m @ rest) b = s @ b @ String_replace rest b"
  using assms(1)
proof (induction s)
  case Nil
  then show ?case using String_replace_match [OF assms(2)] by simp
next
  case (Cons c s)
  then have "\<not> matchesAt MATTERMOST_REGEX (c # s)" "\<not> hasToken s" by simp_all
  with Cons.IH no_straddle [OF _ assms(2), of c s rest] show ?case by simp
qed

lemma String_replace_weave:
  assumes "\<not> hasToken s0" "\<forall>(m, s) \<in> set segs. caseVariant m \<and> \<not> hasToken s"
  shows "String_replace (weave s0 segs) b = weave s0 (map (\<lambda>(m, s). (b, s)) segs)"
  using assms
proof (induction segs arbitrary: s0)
  case Nil
  then show ?case by (simp add: String_replace_free)
next
  case (Cons seg segs)
  obtain m s where seg: "seg = (m, s)" by (cases seg)
  with Cons.prems have "caseVariant m" "\<not> hasToken s" "\<forall>(m, s) \<in> set segs. caseVariant m \<and> \<not> hasToken s"
    by auto
  with Cons.IH [of s] Cons.prems(1) seg show ?case
    by (simp add: String_replace_segment)
qed

lemma first_occurrence:
  "hasToken s \<Longrightarrow> \<exists>s0 m rest. s = s0 @ m @ rest \<and> \<not> hasToken s0 \<and> caseVariant m"
proof (induction s)
  case Nil
  then show ?case by simp
next
  case (Cons c cs)
  show ?case
  proof (cases "matchesAt MATTERMOST_REGEX (c # cs)")
    case True
    then have "caseVariant (take 10 (c # cs))"
      by (simp add: caseVariant_def matchesAt_iff length_MATTERMOST_REGEX)
    moreover have "c # cs = [] @ take 10 (c # cs) @ drop 10 (c # cs)" by simp
    ultimately show ?thesis by (metis hasToken.simps(1))
  next
    case False
    with Cons.prems have "hasToken cs" by simp
    then obtain s0 m rest where d: "cs = s0 @ m @ rest" "\<not> hasToken s0" "caseVariant m"
      using Cons.IH by blast
    have "\<not> matchesAt MATTERMOST_REGEX (c # s0)"
      using False d(1) matchesAt_prefix [of MATTERMOST_REGEX "c # s0" "m @ rest"] by auto
    with d have "c # cs = (c # s0) @ m @ rest" "\<not> hasToken (c # s0)" by simp_all
    with d(3) show ?thesis by blast
  qed
qed

text \<open>
  The two notions in plain terms: a casing of the legacy product name is a string with
  the canonical form of the pattern, and a string contains the name when it has such a
  string as a part.
\<close>

lemma caseVariant_iff:
  "caseVariant m \<longleftrightarrow> map canonicalize m = map canonicalize MATTERMOST_REGEX"
proof
  assume "caseVariant m"
  then have l: "length m = length MATTERMOST_REGEX" and mm: "matchesAt MATTERMOST_REGEX m"
    by (simp_all add: caseVariant_def)
  from mm
  have "map canonicalize (take (length MATTERMOST_REGEX) m) = map canonicalize MATTERMOST_REGEX"
    using matchesAt_iff by blast
  with l show "map canonicalize m = map canonicalize MATTERMOST_REGEX" by simp
next
  assume a: "map canonicalize m = map canonicalize MATTERMOST_REGEX"
  then have "length m = length MATTERMOST_REGEX" by (metis length_map)
  with a show "caseVariant m" by (simp add: caseVariant_def matchesAt_iff)
qed

lemma hasToken_iff: "hasToken s \<longleftrightarrow> (\<exists>u m v. s = u @ m @ v \<and> caseVariant m)"
proof
  assume "hasToken s"
  then show "\<exists>u m v. s = u @ m @ v \<and> caseVariant m"
    using first_occurrence by blast
next
  assume "\<exists>u m v. s = u @ m @ v \<and> caseVariant m"
  then obtain u m v where s: "s = u @ m @ v" and cv: "caseVariant m" by blast
  from cv obtain c cs where m: "m = c # cs"
    by (cases m) (auto simp: caseVariant_def length_MATTERMOST_REGEX)
  from cv have "matchesAt MATTERMOST_REGEX (m @ v)"
    using matchesAt_prefix by (simp add: caseVariant_def)
  with m have "hasToken (m @ v)" by simp
  moreover have "hasToken y \<Longrightarrow> hasToken (x @ y)" for x y by (induction x) auto
  ultimately show "hasToken s" using s by simp
qed

text \<open>Every string is a weave of occurrences and texts free of occurrences.\<close>

lemma weave_decomposition:
  "\<exists>s0 segs. s = weave s0 segs \<and> \<not> hasToken s0
     \<and> (\<forall>(m, s) \<in> set segs. caseVariant m \<and> \<not> hasToken s)"
proof (induction "length s" arbitrary: s rule: less_induct)
  case less
  show ?case
  proof (cases "hasToken s")
    case False
    then have "s = weave s []" "\<not> hasToken s" by simp_all
    then show ?thesis by (metis empty_iff list.set(1))
  next
    case True
    then obtain s0 m rest where d: "s = s0 @ m @ rest" "\<not> hasToken s0" "caseVariant m"
      using first_occurrence by blast
    from d(3) have "length m = 10" by (simp add: caseVariant_def length_MATTERMOST_REGEX)
    with d(1) have "length rest < length s" by simp
    from less [OF this] obtain s1 segs where r: "rest = weave s1 segs" "\<not> hasToken s1"
      "\<forall>(m, s) \<in> set segs. caseVariant m \<and> \<not> hasToken s" by blast
    with d have "s = weave s0 ((m, s1) # segs)"
      "\<forall>(m, s) \<in> set ((m, s1) # segs). caseVariant m \<and> \<not> hasToken s" by simp_all
    with d(2) show ?thesis by blast
  qed
qed

lemma hasToken_weave:
  assumes "\<not> hasToken s0" "\<forall>(m, s) \<in> set segs. caseVariant m \<and> \<not> hasToken s"
  shows "hasToken (weave s0 segs) \<longleftrightarrow> segs \<noteq> []"
proof (cases segs)
  case Nil
  then show ?thesis using assms by simp
next
  case (Cons seg segs')
  obtain m s where seg: "seg = (m, s)" by (cases seg)
  with Cons assms have cv: "caseVariant m" by simp
  have "hasToken (m @ z)" for z
  proof -
    from cv obtain c cs where "m = c # cs"
      by (cases m) (auto simp: caseVariant_def length_MATTERMOST_REGEX)
    with cv show ?thesis
      using matchesAt_prefix [of MATTERMOST_REGEX m z] by (simp add: caseVariant_def)
  qed
  moreover have "hasToken y \<Longrightarrow> hasToken (x @ y)" for x y by (induction x) auto
  ultimately show ?thesis using Cons seg by simp
qed

section \<open>The brand names\<close>

lemma brandName_eq:
  "brandName locale =
     (if locale = ascii ''en'' then Own (ascii ''Andisheh Hosseini Elementary'')
      else if locale = ascii ''fa'' then Own FA_BRAND_NAME
      else (case Object_prototype locale of
              None \<Rightarrow> Own FA_BRAND_NAME
            | Some m \<Rightarrow> Inherited m))"
  by (simp add: brandName_def getProperty_def BRAND_NAME_PER_LOCALE_def PRIMARY_LOCALE_def
      ascii_def FA_BRAND_NAME_def split: option.splits)

lemma Object_prototype_canonical:
  "Object_prototype (ascii ''en'') = None" "Object_prototype (ascii ''fa'') = None"
  by (simp_all add: Object_prototype_def ascii_def)

lemma brandName_Own:
  assumes "Object_prototype locale = None"
  shows "brandName locale =
           Own (if locale = ascii ''en'' then ascii ''Andisheh Hosseini Elementary''
                else FA_BRAND_NAME)"
  using assms by (simp add: brandName_eq)

lemma brandName_canonical:
  "brandName (ascii ''en'') = Own (ascii ''Andisheh Hosseini Elementary'')"
  "brandName (ascii ''fa'') = Own FA_BRAND_NAME"
  "brandName PRIMARY_LOCALE = Own FA_BRAND_NAME"
  by (simp_all add: brandName_eq PRIMARY_LOCALE_def ascii_def)

lemma brandName_configured:
  assumes "BRAND_NAME_PER_LOCALE locale = Some b
           \<or> (BRAND_NAME_PER_LOCALE locale = None \<and> Object_prototype locale = None
                \<and> BRAND_NAME_PER_LOCALE PRIMARY_LOCALE = Some b)"
  shows "brandName locale = Own b"
  using assms
  by (auto simp: brandName_eq BRAND_NAME_PER_LOCALE_def PRIMARY_LOCALE_def ascii_def
      split: if_splits)

lemma brandName_no_dollar: "brandName locale = Own b \<Longrightarrow> 0x24 \<notin> set b"
  by (auto simp: brandName_eq ascii_def FA_BRAND_NAME_def split: if_splits option.splits)

text \<open>
  No occurrence of the legacy name can overlap an inserted brand name, whatever text
  surrounds it: none starts inside the brand name, and none that starts before it
  reaches into it.
\<close>

lemma isolate:
  assumes S1: "\<And>y. \<not> hasToken y \<Longrightarrow> \<not> hasToken (b @ y)"
    and S2: "\<And>k y. 0 < k \<Longrightarrow> k < 10 \<Longrightarrow> \<not> matchesAt (drop k MATTERMOST_REGEX) (b @ y)"
  shows "\<not> hasToken x \<Longrightarrow> \<not> hasToken y \<Longrightarrow> \<not> hasToken (x @ b @ y)"
proof (induction x)
  case Nil
  then show ?case using S1 by simp
next
  case (Cons c x)
  then have nm: "\<not> matchesAt MATTERMOST_REGEX (c # x)" and IH: "\<not> hasToken (x @ b @ y)"
    by simp_all
  have "\<not> matchesAt MATTERMOST_REGEX ((c # x) @ (b @ y))"
  proof (cases "10 \<le> length (c # x)")
    case True
    then show ?thesis
      using nm matchesAt_append [of MATTERMOST_REGEX "c # x" "b @ y"]
      by (simp add: length_MATTERMOST_REGEX)
  next
    case False
    then have "0 < length (c # x)" "length (c # x) < 10" by simp_all
    from S2 [OF this] show ?thesis
      using False matchesAt_append [of MATTERMOST_REGEX "c # x" "b @ y"]
      by (simp add: length_MATTERMOST_REGEX)
  qed
  with IH show ?case by simp
qed

lemma String_replace_clean:
  assumes S1: "\<And>y. \<not> hasToken y \<Longrightarrow> \<not> hasToken (b @ y)"
    and S2: "\<And>k y. 0 < k \<Longrightarrow> k < 10 \<Longrightarrow> \<not> matchesAt (drop k MATTERMOST_REGEX) (b @ y)"
  shows "\<not> hasToken (String_replace s b)"
proof (induction "length s" arbitrary: s rule: less_induct)
  case less
  show ?case
  proof (cases "hasToken s")
    case False
    then show ?thesis by (simp add: String_replace_free)
  next
    case True
    then obtain s0 m rest where d: "s = s0 @ m @ rest" "\<not> hasToken s0" "caseVariant m"
      using first_occurrence by blast
    from d(3) have "length m = 10" by (simp add: caseVariant_def length_MATTERMOST_REGEX)
    with d(1) have "length rest < length s" by simp
    then have "\<not> hasToken (String_replace rest b)" by (rule less)
    with d(2) have "\<not> hasToken (s0 @ b @ String_replace rest b)"
      using isolate [of b s0 "String_replace rest b"] S1 S2 by blast
    then show ?thesis
      using d by (simp add: String_replace_segment)
  qed
qed

lemma sep_en1: "\<not> hasToken y \<Longrightarrow> \<not> hasToken (ascii ''Andisheh Hosseini Elementary'' @ y)"
  by (simp add: ascii_def MATTERMOST_REGEX_def canonicalize_def)

lemma sep_en2:
  assumes "0 < k" "k < 10"
  shows "\<not> matchesAt (drop k MATTERMOST_REGEX) (ascii ''Andisheh Hosseini Elementary'' @ y)"
proof -
  from assms consider "k = 1" | "k = 2" | "k = 3" | "k = 4" | "k = 5" | "k = 6" | "k = 7"
    | "k = 8" | "k = 9"
    by linarith
  then show ?thesis
    by cases (simp_all add: ascii_def MATTERMOST_REGEX_def canonicalize_def)
qed

lemma sep_fa1: "\<not> hasToken y \<Longrightarrow> \<not> hasToken (FA_BRAND_NAME @ y)"
  by (simp add: FA_BRAND_NAME_def ascii_def MATTERMOST_REGEX_def canonicalize_def)

lemma sep_fa2:
  assumes "0 < k" "k < 10"
  shows "\<not> matchesAt (drop k MATTERMOST_REGEX) (FA_BRAND_NAME @ y)"
proof -
  from assms consider "k = 1" | "k = 2" | "k = 3" | "k = 4" | "k = 5" | "k = 6" | "k = 7"
    | "k = 8" | "k = 9"
    by linarith
  then show ?thesis
    by cases (simp_all add: FA_BRAND_NAME_def ascii_def MATTERMOST_REGEX_def canonicalize_def)
qed

lemma brandName_clean:
  assumes "brandName locale = Own b"
  shows "\<not> hasToken (String_replace s b)" and "\<not> hasToken b"
proof -
  from assms have b: "b = ascii ''Andisheh Hosseini Elementary'' \<or> b = FA_BRAND_NAME"
    by (auto simp: brandName_eq split: if_splits option.splits)
  then show "\<not> hasToken (String_replace s b)"
    using String_replace_clean [OF sep_en1 sep_en2] String_replace_clean [OF sep_fa1 sep_fa2]
    by auto
  from b show "\<not> hasToken b"
    using sep_en1 [of "[]"] sep_fa1 [of "[]"] by auto
qed

section \<open>Inherited members as replacement\<close>

text \<open>
  \<open>Object\<close> called for every match puts every match back; a member that throws makes
  the replacement throw as soon as there is a match.
\<close>

lemma String_replace_function_Constructor:
  "String_replace_function s (callMember Constructor) = Some s"
  by (induction s "callMember Constructor" rule: String_replace_function.induct) auto

lemma String_replace_function_throws:
  assumes "\<And>matched. f matched = None"
  shows "String_replace_function s f = (if hasToken s then None else Some s)"
  using assms by (induction s f rule: String_replace_function.induct) auto

section \<open>applyBranding\<close>

lemma brandEntry_Own: "brandEntry (Own b) (key, v) = Some (key, brandValue b v)"
  using String_match_iff by (cases v) (auto simp: brandEntry_def String_replace_free)

lemma mapEntries_Own: "mapEntries (brandEntry (Own b)) t = Some (brandedWith b t)"
  by (auto simp: mapEntries_def brandEntry_Own brandedWith_def split: option.splits)

lemma brandEntry_Constructor: "brandEntry (Inherited Constructor) (key, v) = Some (key, v)"
  by (cases v) (auto simp: brandEntry_def String_replace_function_Constructor)

lemma mapEntries_Constructor: "mapEntries (brandEntry (Inherited Constructor)) t = Some t"
  by (auto simp: mapEntries_def brandEntry_Constructor split: option.splits)

lemma brandedWith_String:
  "t key = Some (JString s) \<Longrightarrow> brandedWith b t key = Some (JString (String_replace s b))"
  by (simp add: brandedWith_def)

lemma brandedWith_other: "t key = Some v \<Longrightarrow> \<not> isString v \<Longrightarrow> brandedWith b t key = Some v"
  by (cases v) (simp_all add: brandedWith_def)

lemma dom_brandedWith: "dom (brandedWith b t) = dom t"
  by (auto simp: brandedWith_def dom_def)

lemma applyBranding_Own:
  assumes "brandName locale = Own b"
  shows "applyBranding translations locale w =
           (Inr (nextRef w),
            w\<lparr>heap := (heap w)(nextRef w := brandedWith b (heap w translations)),
              nextRef := Suc (nextRef w)\<rparr>)"
  using assms by (simp add: applyBranding_def mapEntries_Own)

text \<open>
  At a locale that names an inherited member the brand table yields that member and
  nothing falls back to the primary locale: at \<open>constructor\<close> the new catalog holds the
  values of the input as they are, and at \<open>valueOf\<close> the call throws as soon as one
  string value contains the legacy product name.
\<close>

lemma applyBranding_constructor:
  "applyBranding translations (ascii ''constructor'') w =
     (Inr (nextRef w),
      w\<lparr>heap := (heap w)(nextRef w := heap w translations), nextRef := Suc (nextRef w)\<rparr>)"
proof -
  have "brandName (ascii ''constructor'') = Inherited Constructor"
    by (simp add: brandName_eq Object_prototype_def ascii_def)
  then show ?thesis by (simp add: applyBranding_def mapEntries_Constructor)
qed

lemma applyBranding_valueOf:
  assumes "heap w translations key = Some (JString s)" "hasToken s"
  shows "applyBranding translations (ascii ''valueOf'') w = (Inl TypeError, w)"
proof -
  have b: "brandName (ascii ''valueOf'') = Inherited ValueOf"
    by (simp add: brandName_eq Object_prototype_def ascii_def)
  have "replaceWith s (Inherited ValueOf) = None"
    using assms(2) by (simp add: String_replace_function_throws)
  with assms have "brandEntry (Inherited ValueOf) (key, JString s) = None"
    using String_match_iff by (simp add: brandEntry_def)
  with assms(1)
  have "\<exists>key v. heap w translations key = Some v \<and> brandEntry (Inherited ValueOf) (key, v) = None"
    by blast
  then have "mapEntries (brandEntry (Inherited ValueOf)) (heap w translations) = None"
    unfolding mapEntries_def by (simp only: if_True)
  with b show ?thesis by (simp add: applyBranding_def)
qed

section \<open>Evaluation\<close>

text \<open>The equations that evaluate the program on a concrete world.\<close>

lemmas eval_defs = example_world_def example_world_constructor_def initialWorld_def
  example_en_def example_fa_def example_fa_constructor_def noneBroken_def faBroken_def
  enBroken_def en_def fa_def ascii_def applyBranding_def Let_def mapEntries_Own
  brandedWith_def MATTERMOST_REGEX_def canonicalize_def brandName_def getProperty_def
  Object_prototype_def BRAND_NAME_PER_LOCALE_def FA_BRAND_NAME_def orElse_def orDefault_def
  PRIMARY_LOCALE_def getTranslations_def loadTranslation_def loadTranslation_try_def
  getLocaleFromLanguage_def languages_def keyMirror_def languageCode_def
  localeDataModules_def require_def logError_def getLocalizedMessage_def lookupMessage_def
  caseVariant_def resetMomentLocale_def moment_locale_def DEFAULT_LOCALE_def deviceLocale_def

section \<open>The branded catalog\<close>

text \<open>
  C3. Let the locale be one that has a brand name in the brand table, or one that has
  none and does not name a member the table inherits from \<open>Object.prototype\<close>, and let
  \<open>b\<close> be its brand name, respectively the brand name of the primary locale. Let a
  string value of the catalog be any text \<open>s0 m1 s1 ... mn sn\<close> in which every \<open>m\<close> is the
  legacy product name in some casing and no \<open>s\<close> contains it. Then \<open>applyBranding\<close>
  returns a catalog that holds under the same key the text \<open>s0 b s1 ... b sn\<close>: every
  occurrence, whatever its casing, is replaced by \<open>b\<close> as it is written.
\<close>

theorem applyBranding_replaces_every_occurrence:
  assumes "BRAND_NAME_PER_LOCALE locale = Some b
           \<or> (BRAND_NAME_PER_LOCALE locale = None \<and> Object_prototype locale = None
                \<and> BRAND_NAME_PER_LOCALE PRIMARY_LOCALE = Some b)"
    and "heap w translations key = Some (JString (weave s0 segs))"
    and "\<not> hasToken s0"
    and "\<forall>(m, s) \<in> set segs. caseVariant m \<and> \<not> hasToken s"
  shows "\<exists>r w'. applyBranding translations locale w = (Inr r, w')
           \<and> heap w' r key = Some (JString (weave s0 (map (\<lambda>(m, s). (b, s)) segs)))"
proof -
  have b: "brandName locale = Own b" using assms(1) by (rule brandName_configured)
  from applyBranding_Own [OF b, of "translations" w] assms(2)
  have "\<exists>r w'. applyBranding translations locale w = (Inr r, w')
           \<and> heap w' r key = Some (JString (String_replace (weave s0 segs) b))"
    by (simp add: brandedWith_String)
  with String_replace_weave [OF assms(3,4)] show ?thesis by simp
qed

text \<open>
  The theorem at the locale \<open>en\<close>, which has a brand name, and at \<open>de\<close>, which has none,
  on a value with two occurrences in different casings.
\<close>

theorem applyBranding_replaces_every_occurrence_witness:
  "BRAND_NAME_PER_LOCALE (ascii ''en'') = Some (ascii ''Andisheh Hosseini Elementary'')
   \<and> BRAND_NAME_PER_LOCALE (ascii ''de'') = None
   \<and> Object_prototype (ascii ''de'') = None
   \<and> BRAND_NAME_PER_LOCALE PRIMARY_LOCALE = Some FA_BRAND_NAME
   \<and> heap (example_world noneBroken) en (ascii ''about'') =
       Some (JString (weave [] [(ascii ''Mattermost'', ascii '' and ''),
                                (ascii ''mATTERMOST'', ascii '' Desktop'')]))
   \<and> caseVariant (ascii ''Mattermost'') \<and> caseVariant (ascii ''mATTERMOST'')
   \<and> \<not> hasToken [] \<and> \<not> hasToken (ascii '' and '') \<and> \<not> hasToken (ascii '' Desktop'')
   \<and> fst (applyBranding en (ascii ''en'') (example_world noneBroken)) = Inr 2
   \<and> heap (snd (applyBranding en (ascii ''en'') (example_world noneBroken))) 2
          (ascii ''about'') =
       Some (JString (ascii
         ''Andisheh Hosseini Elementary and Andisheh Hosseini Elementary Desktop''))
   \<and> fst (applyBranding en (ascii ''de'') (example_world noneBroken)) = Inr 2
   \<and> heap (snd (applyBranding en (ascii ''de'') (example_world noneBroken))) 2
          (ascii ''about'') =
       Some (JString (FA_BRAND_NAME @ ascii '' and '' @ FA_BRAND_NAME @ ascii '' Desktop''))"
proof -
  let ?w = "example_world noneBroken"
  let ?a = "applyBranding en (ascii ''en'') ?w"
  let ?d = "applyBranding en (ascii ''de'') ?w"
  let ?segs = "[(ascii ''Mattermost'', ascii '' and ''), (ascii ''mATTERMOST'', ascii '' Desktop'')]"
  have h2: "BRAND_NAME_PER_LOCALE (ascii ''en'') = Some (ascii ''Andisheh Hosseini Elementary'')"
    by (simp add: BRAND_NAME_PER_LOCALE_def ascii_def)
  have g2: "BRAND_NAME_PER_LOCALE (ascii ''de'') = None"
    "Object_prototype (ascii ''de'') = None"
    "BRAND_NAME_PER_LOCALE PRIMARY_LOCALE = Some FA_BRAND_NAME"
    by (simp_all add: BRAND_NAME_PER_LOCALE_def Object_prototype_def PRIMARY_LOCALE_def ascii_def)
  have h3: "heap ?w en (ascii ''about'') = Some (JString (weave [] ?segs))"
    by (simp add: example_world_def initialWorld_def example_en_def en_def ascii_def)
  have h4: "\<not> hasToken []" by simp
  have c1: "caseVariant (ascii ''Mattermost'')" and c2: "caseVariant (ascii ''mATTERMOST'')"
    by (simp_all add: caseVariant_def ascii_def MATTERMOST_REGEX_def canonicalize_def)
  have f1: "\<not> hasToken (ascii '' and '')" and f2: "\<not> hasToken (ascii '' Desktop'')"
    by (simp_all add: ascii_def MATTERMOST_REGEX_def canonicalize_def)
  have h5: "\<forall>(m, s) \<in> set ?segs. caseVariant m \<and> \<not> hasToken s"
    using c1 c2 f1 f2 by simp
  have n: "nextRef ?w = 2" by (simp add: example_world_def initialWorld_def)
  have ra: "fst ?a = Inr 2" using n by (simp add: applyBranding_Own [OF brandName_canonical(1)])
  have rd: "fst ?d = Inr 2"
    using n applyBranding_Own [OF brandName_configured [OF disjI2 [OF conjI [OF g2(1) conjI [OF g2(2,3)]]]]]
    by simp
  from applyBranding_replaces_every_occurrence [OF disjI1 [OF h2] h3 h4 h5] ra
  have "heap (snd ?a) 2 (ascii ''about'') =
     Some (JString (weave [] (map (\<lambda>(m, s). (ascii ''Andisheh Hosseini Elementary'', s)) ?segs)))"
    by auto
  then have r1: "heap (snd ?a) 2 (ascii ''about'') = Some (JString (ascii
         ''Andisheh Hosseini Elementary and Andisheh Hosseini Elementary Desktop''))"
    by (simp add: ascii_def)
  from applyBranding_replaces_every_occurrence
         [OF disjI2 [OF conjI [OF g2(1) conjI [OF g2(2,3)]]] h3 h4 h5] rd
  have "heap (snd ?d) 2 (ascii ''about'') =
     Some (JString (weave [] (map (\<lambda>(m, s). (FA_BRAND_NAME, s)) ?segs)))"
    by auto
  then have r2: "heap (snd ?d) 2 (ascii ''about'') =
       Some (JString (FA_BRAND_NAME @ ascii '' and '' @ FA_BRAND_NAME @ ascii '' Desktop''))"
    by simp
  from h2 g2 h3 h4 c1 c2 f1 f2 ra rd r1 r2 show ?thesis by blast
qed

text \<open>
  C5. For a locale that does not name a member inherited from \<open>Object.prototype\<close>
  (every locale with a brand name is one), branding a branded catalog again with the
  same locale returns a catalog with the same content: after one pass no string value
  contains the legacy product name in any casing, and the brand name itself does not
  contain it.
\<close>

theorem applyBranding_idempotent:
  assumes "Object_prototype locale = None"
  shows "\<exists>r1 w1 r2 w2.
           applyBranding translations locale w = (Inr r1, w1)
           \<and> applyBranding r1 locale w1 = (Inr r2, w2)
           \<and> heap w2 r2 = heap w1 r1
           \<and> (\<forall>key s. heap w1 r1 key = Some (JString s) \<longrightarrow> \<not> hasToken s)
           \<and> (\<exists>b. brandName locale = Own b \<and> \<not> hasToken b)"
proof -
  from brandName_Own [OF assms] obtain b where b: "brandName locale = Own b" by blast
  let ?r1 = "nextRef w"
  let ?t1 = "brandedWith b (heap w translations)"
  let ?w1 = "w\<lparr>heap := (heap w)(?r1 := ?t1), nextRef := Suc ?r1\<rparr>"
  let ?r2 = "Suc ?r1"
  let ?t2 = "brandedWith b ?t1"
  let ?w2 = "?w1\<lparr>heap := (heap ?w1)(?r2 := ?t2), nextRef := Suc ?r2\<rparr>"
  have a1: "applyBranding translations locale w = (Inr ?r1, ?w1)"
    using applyBranding_Own [OF b] .
  have a2: "applyBranding ?r1 locale ?w1 = (Inr ?r2, ?w2)"
    using applyBranding_Own [OF b, of ?r1 ?w1] by simp
  have clean: "\<not> hasToken s" if "?t1 key = Some (JString s)" for key s
  proof -
    from that obtain v where v: "heap w translations key = Some v" "brandValue b v = JString s"
      by (auto simp: brandedWith_def)
    show ?thesis
    proof (cases "isString v")
      case True
      then obtain t where "v = JString t" by (cases v) simp_all
      with v(2) have "s = String_replace t b" by simp
      then show ?thesis using brandName_clean(1) [OF b] by simp
    next
      case False
      with v(2) show ?thesis by (cases v) simp_all
    qed
  qed
  have "?t2 key = ?t1 key" for key
  proof (cases "?t1 key")
    case None
    then show ?thesis by (simp add: brandedWith_def)
  next
    case (Some v)
    show ?thesis
    proof (cases "isString v")
      case True
      then obtain t where t: "v = JString t" by (cases v) simp_all
      with Some clean have "\<not> hasToken t" by blast
      with Some t show ?thesis
        using brandedWith_String [of ?t1 key t b] by (simp add: String_replace_free)
    next
      case False
      with Some show ?thesis using brandedWith_other [of ?t1 key v b] by simp
    qed
  qed
  then have same: "?t2 = ?t1" by auto
  have h1: "heap ?w1 ?r1 = ?t1" by simp
  have h2: "heap ?w2 ?r2 = ?t2" by simp
  have "heap ?w2 ?r2 = heap ?w1 ?r1" using same h1 h2 by simp
  moreover have "\<forall>key s. heap ?w1 ?r1 key = Some (JString s) \<longrightarrow> \<not> hasToken s"
    using clean h1 by simp
  moreover have "\<exists>b. brandName locale = Own b \<and> \<not> hasToken b"
    using b brandName_clean(2) [OF b] by blast
  ultimately show ?thesis using a1 a2 by blast
qed

theorem applyBranding_idempotent_witness:
  "Object_prototype (ascii ''en'') = None
   \<and> fst (applyBranding en (ascii ''en'') (example_world noneBroken)) = Inr 2
   \<and> heap (snd (applyBranding en (ascii ''en'') (example_world noneBroken))) 2
          (ascii ''about'') =
       Some (JString (ascii
         ''Andisheh Hosseini Elementary and Andisheh Hosseini Elementary Desktop''))
   \<and> \<not> hasToken (ascii
       ''Andisheh Hosseini Elementary and Andisheh Hosseini Elementary Desktop'')
   \<and> fst (applyBranding 2 (ascii ''en'')
            (snd (applyBranding en (ascii ''en'') (example_world noneBroken)))) = Inr 3
   \<and> heap (snd (applyBranding 2 (ascii ''en'')
                  (snd (applyBranding en (ascii ''en'') (example_world noneBroken))))) 3
          (ascii ''about'') =
       Some (JString (ascii
         ''Andisheh Hosseini Elementary and Andisheh Hosseini Elementary Desktop''))"
proof -
  let ?a1 = "applyBranding en (ascii ''en'') (example_world noneBroken)"
  let ?a2 = "applyBranding 2 (ascii ''en'') (snd ?a1)"
  have p: "Object_prototype (ascii ''en'') = None" by (rule Object_prototype_canonical)
  have f1: "fst ?a1 = Inr 2"
    by (simp add: applyBranding_Own [OF brandName_canonical(1)] example_world_def
        initialWorld_def)
  have f2: "fst ?a2 = Inr 3"
    by (simp add: applyBranding_Own [OF brandName_canonical(1)] example_world_def
        initialWorld_def)
  have e: "heap (snd ?a1) 2 (ascii ''about'') = Some (JString (ascii
       ''Andisheh Hosseini Elementary and Andisheh Hosseini Elementary Desktop''))"
    by (simp add: eval_defs)
  from applyBranding_idempotent [OF p, of en "example_world noneBroken"]
  obtain r1 w1 r2 w2 where t: "?a1 = (Inr r1, w1)" "applyBranding r1 (ascii ''en'') w1 = (Inr r2, w2)"
    "heap w2 r2 = heap w1 r1" "\<forall>key s. heap w1 r1 key = Some (JString s) \<longrightarrow> \<not> hasToken s"
    by blast
  from t(1) f1 have r1: "r1 = 2" "w1 = snd ?a1" by simp_all
  with t(2) f2 have r2: "r2 = 3" "w2 = snd ?a2" by simp_all
  from t(3,4) r1 r2 e have "\<not> hasToken (ascii
       ''Andisheh Hosseini Elementary and Andisheh Hosseini Elementary Desktop'')"
    "heap (snd ?a2) 3 (ascii ''about'') = Some (JString (ascii
       ''Andisheh Hosseini Elementary and Andisheh Hosseini Elementary Desktop''))"
    by auto
  with p f1 f2 e show ?thesis by blast
qed

text \<open>
  C6. For a locale that does not name a member inherited from \<open>Object.prototype\<close>,
  \<open>applyBranding\<close> returns a new object with exactly the keys of its input. The input
  object, and every other object allocated before the call, is left as it was. A value
  that is not a string, and a string that does not contain the legacy product name in
  any casing, is found unchanged under the same key.
\<close>

theorem applyBranding_frame:
  assumes "Object_prototype locale = None"
    and "translations < nextRef w"
  shows "\<exists>r w'. applyBranding translations locale w = (Inr r, w')
         \<and> dom (heap w' r) = dom (heap w translations)
         \<and> r \<noteq> translations
         \<and> heap w' translations = heap w translations
         \<and> (\<forall>x < nextRef w. heap w' x = heap w x)
         \<and> (\<forall>key v. heap w translations key = Some v \<and> \<not> isString v
               \<longrightarrow> heap w' r key = Some v)
         \<and> (\<forall>key s. heap w translations key = Some (JString s) \<and> \<not> hasToken s
               \<longrightarrow> heap w' r key = Some (JString s))"
proof -
  from brandName_Own [OF assms(1)] obtain b where b: "brandName locale = Own b" by blast
  let ?r = "nextRef w"
  let ?w' = "w\<lparr>heap := (heap w)(?r := brandedWith b (heap w translations)),
               nextRef := Suc ?r\<rparr>"
  have a: "applyBranding translations locale w = (Inr ?r, ?w')"
    using applyBranding_Own [OF b] .
  have h: "heap ?w' ?r = brandedWith b (heap w translations)" by simp
  have "dom (heap ?w' ?r) = dom (heap w translations)"
    unfolding h by (rule dom_brandedWith)
  moreover have "?r \<noteq> translations" using assms(2) by simp
  moreover have "\<forall>x < nextRef w. heap ?w' x = heap w x" by simp
  moreover have "heap ?w' translations = heap w translations" using assms(2) by simp
  moreover have "\<forall>key v. heap w translations key = Some v \<and> \<not> isString v
               \<longrightarrow> heap ?w' ?r key = Some v"
    unfolding h by (simp add: brandedWith_other)
  moreover have "\<forall>key s. heap w translations key = Some (JString s) \<and> \<not> hasToken s
               \<longrightarrow> heap ?w' ?r key = Some (JString s)"
    unfolding h by (simp add: brandedWith_String String_replace_free)
  ultimately show ?thesis using a by blast
qed

theorem applyBranding_frame_witness:
  "Object_prototype (ascii ''fa'') = None
   \<and> en < nextRef (example_world noneBroken)
   \<and> fst (applyBranding en (ascii ''fa'') (example_world noneBroken)) = Inr 2
   \<and> 2 \<noteq> en
   \<and> heap (snd (applyBranding en (ascii ''fa'') (example_world noneBroken))) en =
       heap (example_world noneBroken) en
   \<and> dom (heap (snd (applyBranding en (ascii ''fa'') (example_world noneBroken))) 2) =
       dom (heap (example_world noneBroken) en)
   \<and> heap (example_world noneBroken) en (ascii ''count'') = Some (JNumber 3)
   \<and> \<not> isString (JNumber 3)
   \<and> heap (snd (applyBranding en (ascii ''fa'') (example_world noneBroken))) 2
          (ascii ''count'') = Some (JNumber 3)
   \<and> heap (example_world noneBroken) en (ascii ''hello'') = Some (JString (ascii ''Hello''))
   \<and> \<not> hasToken (ascii ''Hello'')
   \<and> heap (snd (applyBranding en (ascii ''fa'') (example_world noneBroken))) 2
          (ascii ''hello'') = Some (JString (ascii ''Hello''))"
proof -
  let ?w = "example_world noneBroken"
  let ?a = "applyBranding en (ascii ''fa'') ?w"
  have p: "Object_prototype (ascii ''fa'') = None" by (rule Object_prototype_canonical)
  have h1: "en < nextRef ?w" by (simp add: example_world_def initialWorld_def en_def)
  have f: "fst ?a = Inr 2"
    by (simp add: applyBranding_Own [OF brandName_canonical(2)] example_world_def
        initialWorld_def)
  have c: "heap ?w en (ascii ''count'') = Some (JNumber 3)"
    by (simp add: example_world_def initialWorld_def example_en_def en_def ascii_def)
  have i: "\<not> isString (JNumber 3)" by simp
  have g: "heap ?w en (ascii ''hello'') = Some (JString (ascii ''Hello''))"
    by (simp add: example_world_def initialWorld_def example_en_def en_def ascii_def)
  have k: "\<not> hasToken (ascii ''Hello'')"
    by (simp add: ascii_def MATTERMOST_REGEX_def canonicalize_def)
  from applyBranding_frame [OF p h1] obtain r w' where t: "?a = (Inr r, w')"
    "dom (heap w' r) = dom (heap ?w en)" "r \<noteq> en" "heap w' en = heap ?w en"
    "\<forall>key v. heap ?w en key = Some v \<and> \<not> isString v \<longrightarrow> heap w' r key = Some v"
    "\<forall>key s. heap ?w en key = Some (JString s) \<and> \<not> hasToken s
       \<longrightarrow> heap w' r key = Some (JString s)"
    by blast
  from t(1) f have r: "r = 2" "w' = snd ?a" by simp_all
  from t(5) c i r have x: "heap (snd ?a) 2 (ascii ''count'') = Some (JNumber 3)" by blast
  from t(6) g k r have y: "heap (snd ?a) 2 (ascii ''hello'') = Some (JString (ascii ''Hello''))"
    by blast
  from t(2,3,4) r p h1 f c i g k x y show ?thesis by blast
qed

section \<open>Loading a catalog\<close>

lemma require_frame:
  "require m w = (res, w') \<Longrightarrow>
     heap w' = heap w \<and> nextRef w' = nextRef w \<and> throwing w' = throwing w
     \<and> errorLog w' = errorLog w \<and> deviceLanguageTag w' = deviceLanguageTag w
     \<and> momentLocale w' = momentLocale w"
  by (auto simp: require_def split: if_splits)

lemma requireAll_frame:
  "requireAll ms w = (res, w') \<Longrightarrow>
     heap w' = heap w \<and> nextRef w' = nextRef w \<and> throwing w' = throwing w
     \<and> errorLog w' = errorLog w \<and> deviceLanguageTag w' = deviceLanguageTag w
     \<and> momentLocale w' = momentLocale w"
proof (induction ms arbitrary: w)
  case Nil
  then show ?case by simp
next
  case (Cons m ms)
  obtain r1 w1 where r: "require m w = (r1, w1)" by (cases "require m w")
  note f = require_frame [OF r]
  show ?case
  proof (cases r1)
    case (Inl e)
    with Cons.prems r f show ?thesis by simp
  next
    case (Inr u)
    with Cons.prems r have "requireAll ms w1 = (res, w')" by simp
    from Cons.IH [OF this] f show ?thesis by simp
  qed
qed

lemma requireAll_throws_iff:
  "(\<exists>e. fst (requireAll ms w) = Inl e) \<longleftrightarrow> (\<exists>m \<in> set ms. throwing w m)"
proof (induction ms arbitrary: w)
  case Nil
  then show ?case by simp
next
  case (Cons m ms)
  show ?case
  proof (cases "throwing w m")
    case True
    then show ?thesis by (simp add: require_def)
  next
    case False
    let ?w1 = "w\<lparr>localeData := insert m (localeData w)\<rparr>"
    have "throwing ?w1 = throwing w" by simp
    with Cons.IH [of ?w1] False show ?thesis by (simp add: require_def)
  qed
qed

lemma requireAll_result:
  "requireAll ms w = (res, w') \<Longrightarrow> (\<exists>e. res = Inl e) \<longleftrightarrow> (\<exists>m \<in> set ms. throwing w m)"
  using requireAll_throws_iff [of ms w] by simp

lemma sum_unit_cases: "(\<And>e. res \<noteq> Inl e) \<Longrightarrow> res = Inr ()"
  by (cases res) auto

lemma loadTranslation_ok:
  assumes "locale = ascii ''en'' \<or> locale = ascii ''fa''"
    and "\<not> (\<exists>m \<in> set (localeDataModules locale). throwing w m)"
  shows "\<exists>w' b. loadTranslation (Some locale) w = (Inr (nextRef w), w')
           \<and> brandName locale = Own b
           \<and> heap w' = (heap w)(nextRef w :=
                 brandedWith b (heap w (if locale = ascii ''fa'' then fa else en)))
           \<and> nextRef w' = Suc (nextRef w)
           \<and> errorLog w' = errorLog w"
proof -
  obtain res w1 where r: "requireAll (localeDataModules locale) w = (res, w1)"
    by (cases "requireAll (localeDataModules locale) w")
  from requireAll_result [OF r] assms(2) have res: "res = Inr ()"
    by (intro sum_unit_cases) auto
  note f = requireAll_frame [OF r]
  have nonempty: "locale \<noteq> []" using assms(1) by (auto simp: ascii_def)
  from assms(1) obtain b where b: "brandName locale = Own b"
    using brandName_canonical by blast
  note a = applyBranding_Own [OF b, of "if locale = ascii ''fa'' then fa else en" w1]
  have ne: "ascii ''en'' \<noteq> ascii ''fa''" by (simp add: ascii_def)
  have t: "loadTranslation_try (Some locale) w =
          applyBranding (if locale = ascii ''fa'' then fa else en) locale w1"
    using assms(1) r res nonempty ne
    by (auto simp: loadTranslation_try_def orDefault_def)
  have "loadTranslation (Some locale) w =
          applyBranding (if locale = ascii ''fa'' then fa else en) locale w1"
    by (simp add: loadTranslation_def t a)
  with a b f show ?thesis by simp
qed

lemma loadTranslation_recovers:
  assumes "locale = ascii ''en'' \<or> locale = ascii ''fa''"
    and "\<exists>m \<in> set (localeDataModules locale). throwing w m"
  shows "\<exists>w' e. loadTranslation (Some locale) w = (Inr (nextRef w), w')
           \<and> heap w' = (heap w)(nextRef w := brandedWith FA_BRAND_NAME (heap w en))
           \<and> nextRef w' = Suc (nextRef w)
           \<and> errorLog w' = errorLog w @ [(ascii ''NO Translation found'', e)]"
proof -
  obtain res w1 where r: "requireAll (localeDataModules locale) w = (res, w1)"
    by (cases "requireAll (localeDataModules locale) w")
  from requireAll_result [OF r] assms(2) obtain e where res: "res = Inl e" by auto
  note f = requireAll_frame [OF r]
  let ?w1 = "logError (ascii ''NO Translation found'') e w1"
  note a = applyBranding_Own [OF brandName_canonical(3), of en ?w1]
  have ne: "ascii ''en'' \<noteq> ascii ''fa''" by (simp add: ascii_def)
  have t: "loadTranslation_try (Some locale) w = (Inl e, w1)"
    using assms(1) r res ne by (auto simp: loadTranslation_try_def)
  have "loadTranslation (Some locale) w = applyBranding en PRIMARY_LOCALE ?w1"
    by (simp add: loadTranslation_def t)
  with a f show ?thesis by (simp add: logError_def)
qed

lemma getTranslations_returns: "\<exists>r w'. getTranslations lang w = (Inr r, w')"
  using loadTranslation_ok [OF getLocaleFromLanguage_cases, of lang w]
    loadTranslation_recovers [OF getLocaleFromLanguage_cases, of lang w]
  unfolding getTranslations_def by blast

text \<open>
  Every call returns a new object: the imported catalogs, and every object allocated
  before the call, are left as they were.
\<close>

lemma getTranslations_fresh:
  assumes "getTranslations lang w = (res, w')"
  shows "res = Inr (nextRef w) \<and> nextRef w' = Suc (nextRef w)
         \<and> (\<forall>x < nextRef w. heap w' x = heap w x)"
  using loadTranslation_ok [OF getLocaleFromLanguage_cases, of lang w]
    loadTranslation_recovers [OF getLocaleFromLanguage_cases, of lang w] assms
  unfolding getTranslations_def by fastforce

lemma mapEntries_primary:
  "mapEntries (brandEntry (brandName PRIMARY_LOCALE)) t = Some (brandedWith FA_BRAND_NAME t)"
  by (simp add: brandName_canonical mapEntries_Own)

text \<open>
  C2. \<open>getTranslations\<close> returns for every tag and never throws. When one of the
  locale-data modules of the resolved locale throws, exactly one entry is added to the
  error log and the catalog returned is the English catalog \<open>en\<close> branded with the
  brand name of the primary locale. When none throws, nothing is logged.
\<close>

theorem getTranslations_never_raises:
  "(\<exists>r w'. getTranslations lang w = (Inr r, w'))
   \<and> ((\<exists>m \<in> set (localeDataModules (getLocaleFromLanguage lang)). throwing w m) \<longrightarrow>
        (\<exists>r w' e. getTranslations lang w = (Inr r, w')
            \<and> errorLog w' = errorLog w @ [(ascii ''NO Translation found'', e)]
            \<and> mapEntries (brandEntry (brandName PRIMARY_LOCALE)) (heap w en)
                 = Some (heap w' r)))
   \<and> (\<not> (\<exists>m \<in> set (localeDataModules (getLocaleFromLanguage lang)). throwing w m) \<longrightarrow>
        (\<exists>r w'. getTranslations lang w = (Inr r, w') \<and> errorLog w' = errorLog w))"
proof -
  have "\<exists>r w' e. getTranslations lang w = (Inr r, w')
            \<and> errorLog w' = errorLog w @ [(ascii ''NO Translation found'', e)]
            \<and> mapEntries (brandEntry (brandName PRIMARY_LOCALE)) (heap w en)
                 = Some (heap w' r)"
    if "\<exists>m \<in> set (localeDataModules (getLocaleFromLanguage lang)). throwing w m"
    using loadTranslation_recovers [OF getLocaleFromLanguage_cases that]
    unfolding getTranslations_def mapEntries_primary by fastforce
  moreover have "\<exists>r w'. getTranslations lang w = (Inr r, w') \<and> errorLog w' = errorLog w"
    if "\<not> (\<exists>m \<in> set (localeDataModules (getLocaleFromLanguage lang)). throwing w m)"
    using loadTranslation_ok [OF getLocaleFromLanguage_cases that]
    unfolding getTranslations_def by fastforce
  ultimately show ?thesis using getTranslations_returns by blast
qed

text \<open>
  The theorem on the installation in which a module of \<open>fa\<close> throws, and on the one in
  which every module loads.
\<close>

theorem getTranslations_never_raises_witness:
  "throwing (example_world faBroken) (PluralRules, ascii ''fa'')
   \<and> (PluralRules, ascii ''fa'') \<in> set (localeDataModules (getLocaleFromLanguage (ascii ''fa-IR'')))
   \<and> fst (getTranslations (ascii ''fa-IR'') (example_world faBroken)) = Inr 2
   \<and> errorLog (snd (getTranslations (ascii ''fa-IR'') (example_world faBroken))) =
       [(ascii ''NO Translation found'', RequireError (PluralRules, ascii ''fa''))]
   \<and> mapEntries (brandEntry (brandName PRIMARY_LOCALE)) (heap (example_world faBroken) en) =
       Some (heap (snd (getTranslations (ascii ''fa-IR'') (example_world faBroken))) 2)
   \<and> fst (getTranslations (ascii ''fa-IR'') (example_world noneBroken)) = Inr 2
   \<and> errorLog (snd (getTranslations (ascii ''fa-IR'') (example_world noneBroken))) = []"
proof -
  let ?w = "example_world faBroken"
  let ?g = "getTranslations (ascii ''fa-IR'') ?w"
  let ?v = "example_world noneBroken"
  let ?h = "getTranslations (ascii ''fa-IR'') ?v"
  have a: "throwing ?w (PluralRules, ascii ''fa'')"
    by (simp add: example_world_def initialWorld_def faBroken_def)
  have b: "(PluralRules, ascii ''fa'') \<in> set (localeDataModules (getLocaleFromLanguage (ascii ''fa-IR'')))"
    by (simp add: eval_defs)
  have d: "fst ?g = Inr 2" by (simp add: eval_defs)
  have l: "errorLog (snd ?g) = [(ascii ''NO Translation found'', RequireError (PluralRules, ascii ''fa''))]"
    by (simp add: eval_defs)
  from a b have "\<exists>m \<in> set (localeDataModules (getLocaleFromLanguage (ascii ''fa-IR''))). throwing ?w m"
    by blast
  with getTranslations_never_raises [of "ascii ''fa-IR''" ?w]
  obtain r w' where "?g = (Inr r, w')"
    "mapEntries (brandEntry (brandName PRIMARY_LOCALE)) (heap ?w en) = Some (heap w' r)"
    by blast
  with d have h: "mapEntries (brandEntry (brandName PRIMARY_LOCALE)) (heap ?w en)
                    = Some (heap (snd ?g) 2)"
    by simp
  have d0: "fst ?h = Inr 2" by (simp add: eval_defs)
  have n: "\<not> (\<exists>m \<in> set (localeDataModules (getLocaleFromLanguage (ascii ''fa-IR''))). throwing ?v m)"
    by (simp add: example_world_def initialWorld_def noneBroken_def)
  with getTranslations_never_raises [of "ascii ''fa-IR''" ?v]
  obtain r0 v' where "?h = (Inr r0, v')" "errorLog v' = errorLog ?v" by blast
  then have l0: "errorLog (snd ?h) = []"
    by (simp add: example_world_def initialWorld_def)
  from a b d l h d0 l0 show ?thesis by blast
qed

text \<open>
  The primary locale is \<open>fa\<close>. When its locale data fails to load, the catalog returned
  holds the English text of \<open>en\<close>, not the text of the catalog of \<open>fa\<close>.
\<close>

theorem getTranslations_recovery_catalog_counterexample:
  "faBroken (PluralRules, ascii ''fa'')
   \<and> (PluralRules, ascii ''fa'') \<in> set (localeDataModules (getLocaleFromLanguage (ascii ''fa'')))
   \<and> getLocaleFromLanguage (ascii ''fa'') = PRIMARY_LOCALE
   \<and> fst (getTranslations (ascii ''fa'') (example_world faBroken)) = Inr 2
   \<and> heap (snd (getTranslations (ascii ''fa'') (example_world faBroken))) 2 (ascii ''hello'') =
       Some (JString (ascii ''Hello''))
   \<and> mapEntries (brandEntry (brandName PRIMARY_LOCALE)) (heap (example_world faBroken) fa) =
       Some (brandedWith FA_BRAND_NAME (heap (example_world faBroken) fa))
   \<and> brandedWith FA_BRAND_NAME (heap (example_world faBroken) fa) (ascii ''hello'') =
       Some (JString (ascii ''Salam''))
   \<and> mapEntries (brandEntry (brandName PRIMARY_LOCALE)) (heap (example_world faBroken) fa) \<noteq>
       Some (heap (snd (getTranslations (ascii ''fa'') (example_world faBroken))) 2)"
proof -
  let ?w = "example_world faBroken"
  let ?g = "getTranslations (ascii ''fa'') ?w"
  have a: "faBroken (PluralRules, ascii ''fa'')" by (simp add: faBroken_def)
  have b: "(PluralRules, ascii ''fa'') \<in> set (localeDataModules (getLocaleFromLanguage (ascii ''fa'')))"
    by (simp add: getLocaleFromLanguage_fa localeDataModules_def)
  have c: "getLocaleFromLanguage (ascii ''fa'') = PRIMARY_LOCALE"
    by (simp add: getLocaleFromLanguage_fa PRIMARY_LOCALE_def)
  have d: "fst ?g = Inr 2" by (simp add: eval_defs)
  have e: "heap (snd ?g) 2 (ascii ''hello'') = Some (JString (ascii ''Hello''))"
    by (simp add: eval_defs)
  have m: "mapEntries (brandEntry (brandName PRIMARY_LOCALE)) (heap ?w fa) =
             Some (brandedWith FA_BRAND_NAME (heap ?w fa))"
    by (rule mapEntries_primary)
  have f: "brandedWith FA_BRAND_NAME (heap ?w fa) (ascii ''hello'') = Some (JString (ascii ''Salam''))"
    by (simp add: eval_defs)
  from e f have "heap (snd ?g) 2 (ascii ''hello'') \<noteq>
      brandedWith FA_BRAND_NAME (heap ?w fa) (ascii ''hello'')"
    by (simp add: ascii_def)
  then have "heap (snd ?g) 2 \<noteq> brandedWith FA_BRAND_NAME (heap ?w fa)"
    by metis
  with m have g: "mapEntries (brandEntry (brandName PRIMARY_LOCALE)) (heap ?w fa) \<noteq>
       Some (heap (snd ?g) 2)"
    by simp
  from a b c d e m f g show ?thesis by blast
qed

text \<open>
  C4. When a locale-data module of the requested canonical locale throws, the catalog
  returned is the English catalog branded with the brand name of the primary locale
  \<open>fa\<close>, whichever locale was requested: every string value of \<open>en\<close> is returned with
  each occurrence of the legacy product name replaced by the Persian brand name.
\<close>

theorem loadTranslation_recovery_brand:
  assumes "\<exists>m \<in> set (localeDataModules (getLocaleFromLanguage lang)). throwing w m"
    and "getTranslations lang w = (res, w')"
  shows "\<exists>r. res = Inr r
           \<and> (\<forall>key s. heap w en key = Some (JString s) \<longrightarrow>
                 replaceWith s (brandName PRIMARY_LOCALE) = Some (String_replace s FA_BRAND_NAME)
                 \<and> heap w' r key = Some (JString (String_replace s FA_BRAND_NAME)))
           \<and> brandName PRIMARY_LOCALE = Own FA_BRAND_NAME"
proof -
  from loadTranslation_recovers [OF getLocaleFromLanguage_cases assms(1)] assms(2)
  obtain r where r: "res = Inr r"
    "heap w' r = brandedWith FA_BRAND_NAME (heap w en)"
    by (auto simp: getTranslations_def)
  have "heap w' r key = Some (JString (String_replace s FA_BRAND_NAME))"
    if "heap w en key = Some (JString s)" for key s
    using that r(2) by (simp add: brandedWith_String)
  moreover have "replaceWith s (brandName PRIMARY_LOCALE) = Some (String_replace s FA_BRAND_NAME)"
    for s
    by (simp add: brandName_canonical)
  ultimately show ?thesis using r(1) brandName_canonical(3) by blast
qed

theorem loadTranslation_recovery_brand_witness:
  "throwing (example_world enBroken) (DateTimeFormat, ascii ''en'')
   \<and> (DateTimeFormat, ascii ''en'') \<in> set (localeDataModules (getLocaleFromLanguage (ascii ''en-US'')))
   \<and> heap (example_world enBroken) en (ascii ''about'') =
       Some (JString (ascii ''Mattermost and mATTERMOST Desktop''))
   \<and> fst (getTranslations (ascii ''en-US'') (example_world enBroken)) = Inr 2
   \<and> heap (snd (getTranslations (ascii ''en-US'') (example_world enBroken))) 2 (ascii ''about'') =
       Some (JString (FA_BRAND_NAME @ ascii '' and '' @ FA_BRAND_NAME @ ascii '' Desktop''))"
proof -
  let ?w = "example_world enBroken"
  let ?g = "getTranslations (ascii ''en-US'') ?w"
  have a: "throwing ?w (DateTimeFormat, ascii ''en'')"
    by (simp add: example_world_def initialWorld_def enBroken_def)
  have b: "(DateTimeFormat, ascii ''en'') \<in> set (localeDataModules (getLocaleFromLanguage (ascii ''en-US'')))"
    by (simp add: eval_defs)
  have c: "heap ?w en (ascii ''about'') = Some (JString (ascii ''Mattermost and mATTERMOST Desktop''))"
    by (simp add: example_world_def initialWorld_def example_en_def en_def ascii_def)
  have d: "fst ?g = Inr 2" by (simp add: eval_defs)
  from a b have h: "\<exists>m \<in> set (localeDataModules (getLocaleFromLanguage (ascii ''en-US''))). throwing ?w m"
    by blast
  have p: "?g = (fst ?g, snd ?g)" by simp
  from loadTranslation_recovery_brand [OF h p] d c
  have "heap (snd ?g) 2 (ascii ''about'') =
      Some (JString (String_replace (ascii ''Mattermost and mATTERMOST Desktop'') FA_BRAND_NAME))"
    by auto
  then have "heap (snd ?g) 2 (ascii ''about'') =
       Some (JString (FA_BRAND_NAME @ ascii '' and '' @ FA_BRAND_NAME @ ascii '' Desktop''))"
    by (simp add: ascii_def MATTERMOST_REGEX_def canonicalize_def)
  with a b c d show ?thesis by blast
qed

text \<open>
  The requested locale is \<open>en\<close> and one of its locale-data modules throws: the value is
  branded with the brand name of \<open>fa\<close>, not with the brand name of \<open>en\<close>.
\<close>

theorem loadTranslation_recovery_brand_counterexample:
  "enBroken (DateTimeFormat, ascii ''en'')
   \<and> (DateTimeFormat, ascii ''en'') \<in> set (localeDataModules (getLocaleFromLanguage (ascii ''en'')))
   \<and> getLocaleFromLanguage (ascii ''en'') = ascii ''en''
   \<and> brandName (ascii ''en'') = Own (ascii ''Andisheh Hosseini Elementary'')
   \<and> brandName (ascii ''fa'') = Own FA_BRAND_NAME
   \<and> fst (getTranslations (ascii ''en'') (example_world enBroken)) = Inr 2
   \<and> heap (snd (getTranslations (ascii ''en'') (example_world enBroken))) 2 (ascii ''about'') =
       Some (JString (FA_BRAND_NAME @ ascii '' and '' @ FA_BRAND_NAME @ ascii '' Desktop''))
   \<and> heap (snd (getTranslations (ascii ''en'') (example_world enBroken))) 2 (ascii ''about'') \<noteq>
       Some (JString (ascii ''Andisheh Hosseini Elementary'' @ ascii '' and ''
                        @ ascii ''Andisheh Hosseini Elementary'' @ ascii '' Desktop''))"
  by (simp add: eval_defs)

section \<open>Messages\<close>

lemma lookupMessage_eq:
  "lookupMessage t ident defaultMessage =
     (case t ident of
        Some v \<Rightarrow>
          if truthy v then Data v
          else Data (JString (case defaultMessage of None \<Rightarrow> [] | Some d \<Rightarrow> d))
      | None \<Rightarrow>
          (case Object_prototype ident of
             None \<Rightarrow> Data (JString (case defaultMessage of None \<Rightarrow> [] | Some d \<Rightarrow> d))
           | Some m \<Rightarrow> Member m))"
  by (simp add: lookupMessage_def getProperty_def orDefault_def split: option.splits)

text \<open>
  C10. Resolving a resolved locale changes nothing. So \<open>getTranslations\<close> on the
  resolved locale is \<open>getTranslations\<close> on the tag itself, and \<open>getLocalizedMessage\<close>
  reads its message from exactly the catalog that \<open>getTranslations\<close> returns for the
  tag.
\<close>

theorem getLocaleFromLanguage_idempotent:
  "getLocaleFromLanguage (getLocaleFromLanguage t) = getLocaleFromLanguage t
   \<and> getTranslations (getLocaleFromLanguage t) w = getTranslations t w
   \<and> getLocalizedMessage t ident defaultMessage w =
       (case getTranslations t w of
          (Inl e, w') \<Rightarrow> (Inl e, w')
        | (Inr translations, w') \<Rightarrow>
            (Inr (lookupMessage (heap w' translations) ident defaultMessage), w'))"
proof -
  have idem: "getLocaleFromLanguage (getLocaleFromLanguage t) = getLocaleFromLanguage t"
  proof -
    consider "getLocaleFromLanguage t = ascii ''en''" | "getLocaleFromLanguage t = ascii ''fa''"
      using getLocaleFromLanguage_cases by blast
    then show ?thesis
      by cases (simp_all add: getLocaleFromLanguage_en getLocaleFromLanguage_fa)
  qed
  then have same: "getTranslations (getLocaleFromLanguage t) w = getTranslations t w"
    by (simp add: getTranslations_def)
  have "getLocalizedMessage t ident defaultMessage w =
       (case getTranslations (getLocaleFromLanguage t) w of
          (Inl e, w') \<Rightarrow> (Inl e, w')
        | (Inr translations, w') \<Rightarrow>
            (Inr (lookupMessage (heap w' translations) ident defaultMessage), w'))"
    by (simp add: getLocalizedMessage_def)
  with idem same show ?thesis by simp
qed

theorem getLocaleFromLanguage_idempotent_witness:
  "getLocaleFromLanguage (getLocaleFromLanguage (ascii ''en-US'')) = ascii ''en''
   \<and> getTranslations (getLocaleFromLanguage (ascii ''en-US'')) (example_world noneBroken) =
       getTranslations (ascii ''en-US'') (example_world noneBroken)"
proof -
  have "getLocaleFromLanguage (ascii ''en-US'') = ascii ''en''" by (simp add: eval_defs)
  with getLocaleFromLanguage_idempotent
         [of "ascii ''en-US''" "example_world noneBroken" "[]" None]
  show ?thesis by simp
qed

text \<open>
  C7. \<open>getLocalizedMessage\<close> never throws. It returns the value found under the key in
  the branded catalog of the resolved locale when that value is truthy (a string that
  is not empty). When the value found is falsy (the empty string), or the key is
  missing and does not name a member the catalog inherits from \<open>Object.prototype\<close>, it
  returns the default message if one is given, and the empty string otherwise. (A
  missing key that names an inherited member reads as that member.)
\<close>

theorem getLocalizedMessage_result:
  "\<exists>r w'. getTranslations lang w = (Inr r, w')
      \<and> getLocalizedMessage lang ident defaultMessage w =
          (Inr (case heap w' r ident of
                  Some v \<Rightarrow>
                    if truthy v then Data v
                    else Data (JString (case defaultMessage of None \<Rightarrow> [] | Some d \<Rightarrow> d))
                | None \<Rightarrow>
                    (case Object_prototype ident of
                       None \<Rightarrow>
                         Data (JString (case defaultMessage of None \<Rightarrow> [] | Some d \<Rightarrow> d))
                     | Some m \<Rightarrow> Member m)), w')"
proof -
  obtain r w' where g: "getTranslations lang w = (Inr r, w')"
    using getTranslations_returns by blast
  have "getTranslations (getLocaleFromLanguage lang) w = (Inr r, w')"
    using g by (simp add: getTranslations_def getLocaleFromLanguage_canonical)
  then have "getLocalizedMessage lang ident defaultMessage w =
      (Inr (lookupMessage (heap w' r) ident defaultMessage), w')"
    by (simp add: getLocalizedMessage_def)
  with g show ?thesis
    by (auto simp: lookupMessage_eq)
qed

theorem getLocalizedMessage_result_witness:
  "fst (getTranslations (ascii ''en-US'') (example_world noneBroken)) = Inr 2
   \<and> heap (snd (getTranslations (ascii ''en-US'') (example_world noneBroken))) 2 (ascii ''hello'') =
       Some (JString (ascii ''Hello''))
   \<and> getLocalizedMessage (ascii ''en-US'') (ascii ''hello'') None (example_world noneBroken) =
       (Inr (Data (JString (ascii ''Hello''))),
        snd (getTranslations (ascii ''en-US'') (example_world noneBroken)))
   \<and> heap (snd (getTranslations (ascii ''en-US'') (example_world noneBroken))) 2
          (ascii ''missing.key'') = None
   \<and> Object_prototype (ascii ''missing.key'') = None
   \<and> getLocalizedMessage (ascii ''en-US'') (ascii ''missing.key'') (Some (ascii ''fallback''))
         (example_world noneBroken) =
       (Inr (Data (JString (ascii ''fallback''))),
        snd (getTranslations (ascii ''en-US'') (example_world noneBroken)))"
proof -
  let ?w = "example_world noneBroken"
  let ?g = "getTranslations (ascii ''en-US'') ?w"
  have d: "fst ?g = Inr 2" by (simp add: eval_defs)
  have e: "heap (snd ?g) 2 (ascii ''hello'') = Some (JString (ascii ''Hello''))"
    by (simp add: eval_defs)
  have m: "heap (snd ?g) 2 (ascii ''missing.key'') = None" by (simp add: eval_defs)
  have p: "Object_prototype (ascii ''missing.key'') = None"
    by (simp add: Object_prototype_def ascii_def)
  from getLocalizedMessage_result [of "ascii ''en-US''" ?w "ascii ''hello''" None] d e
  have r1: "getLocalizedMessage (ascii ''en-US'') (ascii ''hello'') None ?w =
       (Inr (Data (JString (ascii ''Hello''))), snd ?g)"
    by (auto simp: ascii_def)
  from getLocalizedMessage_result
         [of "ascii ''en-US''" ?w "ascii ''missing.key''" "Some (ascii ''fallback'')"] d m p
  have r2: "getLocalizedMessage (ascii ''en-US'') (ascii ''missing.key'')
              (Some (ascii ''fallback'')) ?w =
       (Inr (Data (JString (ascii ''fallback''))), snd ?g)"
    by auto
  from d e m p r1 r2 show ?thesis by blast
qed

text \<open>
  The key \<open>blank\<close> is present in the catalog with the empty string as its value; with a
  default message given, the default is returned and not the value found.
\<close>

theorem getLocalizedMessage_found_value_counterexample:
  "fst (getTranslations (ascii ''fa'') (example_world noneBroken)) = Inr 2
   \<and> heap (snd (getTranslations (ascii ''fa'') (example_world noneBroken))) 2 (ascii ''blank'') =
       Some (JString [])
   \<and> fst (getLocalizedMessage (ascii ''fa'') (ascii ''blank'') (Some (ascii ''Untitled''))
            (example_world noneBroken)) = Inr (Data (JString (ascii ''Untitled'')))
   \<and> fst (getLocalizedMessage (ascii ''fa'') (ascii ''blank'') (Some (ascii ''Untitled''))
            (example_world noneBroken)) \<noteq> Inr (Data (JString []))"
  by (simp add: eval_defs)

text \<open>
  C9. When the catalog returned for the tag holds the empty string under a key,
  \<open>getLocalizedMessage\<close> returns the default message (the empty string when none is
  given) and not the value stored. For a key that does not name a member the catalog
  inherits from \<open>Object.prototype\<close>, that is what it returns when the key is removed
  from the catalog.
\<close>

theorem getLocalizedMessage_empty_value:
  assumes "getTranslations lang w = (Inr r, w')"
    and "heap w' r ident = Some (JString [])"
  shows "getLocalizedMessage lang ident defaultMessage w =
           (Inr (Data (JString (case defaultMessage of None \<Rightarrow> [] | Some d \<Rightarrow> d))), w')
         \<and> (Object_prototype ident = None \<longrightarrow>
              lookupMessage (heap w' r) ident defaultMessage =
                lookupMessage ((heap w' r)(ident := None)) ident defaultMessage)"
proof -
  have "getTranslations (getLocaleFromLanguage lang) w = (Inr r, w')"
    using assms(1) by (simp add: getTranslations_def getLocaleFromLanguage_canonical)
  then show ?thesis
    using assms(2)
    by (simp add: getLocalizedMessage_def lookupMessage_eq)
qed

theorem getLocalizedMessage_empty_value_witness:
  "fst (getTranslations (ascii ''fa-IR'') (example_world noneBroken)) = Inr 2
   \<and> heap (snd (getTranslations (ascii ''fa-IR'') (example_world noneBroken))) 2 (ascii ''blank'') =
       Some (JString [])
   \<and> Object_prototype (ascii ''blank'') = None
   \<and> getLocalizedMessage (ascii ''fa-IR'') (ascii ''blank'') (Some (ascii ''Untitled''))
         (example_world noneBroken) =
       (Inr (Data (JString (ascii ''Untitled''))),
        snd (getTranslations (ascii ''fa-IR'') (example_world noneBroken)))
   \<and> lookupMessage
         ((heap (snd (getTranslations (ascii ''fa-IR'') (example_world noneBroken))) 2)
            (ascii ''blank'' := None))
         (ascii ''blank'') (Some (ascii ''Untitled'')) =
       Data (JString (ascii ''Untitled''))"
proof -
  let ?w = "example_world noneBroken"
  let ?g = "getTranslations (ascii ''fa-IR'') ?w"
  have f: "fst ?g = Inr 2" by (simp add: eval_defs)
  then have h1: "?g = (Inr 2, snd ?g)" by (metis prod.collapse)
  have h2: "heap (snd ?g) 2 (ascii ''blank'') = Some (JString [])" by (simp add: eval_defs)
  have p: "Object_prototype (ascii ''blank'') = None"
    by (simp add: Object_prototype_def ascii_def)
  note t = getLocalizedMessage_empty_value [OF h1 h2, of "Some (ascii ''Untitled'')"]
  from t have r1: "getLocalizedMessage (ascii ''fa-IR'') (ascii ''blank'')
      (Some (ascii ''Untitled'')) ?w = (Inr (Data (JString (ascii ''Untitled''))), snd ?g)"
    by simp
  have "lookupMessage (heap (snd ?g) 2) (ascii ''blank'') (Some (ascii ''Untitled'')) =
          Data (JString (ascii ''Untitled''))"
    using h2 by (simp add: lookupMessage_eq)
  with t p have r2: "lookupMessage ((heap (snd ?g) 2)(ascii ''blank'' := None))
         (ascii ''blank'') (Some (ascii ''Untitled'')) = Data (JString (ascii ''Untitled''))"
    by simp
  from f h2 p r1 r2 show ?thesis by blast
qed

text \<open>
  The catalog of \<open>fa\<close> holds the empty string under the key \<open>constructor\<close>: the default
  message is returned. With the key removed, and on the catalog that never had it, the
  inherited function \<open>Object\<close> is returned: at this key an empty message and a missing
  one can be told apart.
\<close>

theorem getLocalizedMessage_missing_key_counterexample:
  "fst (getTranslations (ascii ''fa'') example_world_constructor) = Inr 2
   \<and> heap (snd (getTranslations (ascii ''fa'') example_world_constructor)) 2
          (ascii ''constructor'') = Some (JString [])
   \<and> fst (getLocalizedMessage (ascii ''fa'') (ascii ''constructor'') (Some (ascii ''Untitled''))
            example_world_constructor) = Inr (Data (JString (ascii ''Untitled'')))
   \<and> lookupMessage
         ((heap (snd (getTranslations (ascii ''fa'') example_world_constructor)) 2)
            (ascii ''constructor'' := None))
         (ascii ''constructor'') (Some (ascii ''Untitled'')) = Member Constructor
   \<and> heap (snd (getTranslations (ascii ''fa'') (example_world noneBroken))) 2
          (ascii ''constructor'') = None
   \<and> fst (getLocalizedMessage (ascii ''fa'') (ascii ''constructor'') (Some (ascii ''Untitled''))
            (example_world noneBroken)) = Inr (Member Constructor)"
  by (simp add: eval_defs)

section \<open>The date library\<close>

lemma languageCode_canonical: "languageCode (getLocaleFromLanguage t) = getLocaleFromLanguage t"
  using getLocaleFromLanguage_cases [of t] by (auto simp: languageCode_def ascii_def)

text \<open>
  C8. \<open>resetMomentLocale\<close> sets the locale of the date library to the text before the
  first \<open>-\<close> of the tag it is given, as it is, without resolving the tag; when no tag is
  given, or that text is empty, to the text before the first \<open>-\<close> of the default
  locale, which is the default locale itself: the locale the device tag resolves to.
\<close>

theorem resetMomentLocale_sets:
  "momentLocale (resetMomentLocale locale w) =
     (case locale of
        None \<Rightarrow> languageCode (DEFAULT_LOCALE w)
      | Some t \<Rightarrow> if languageCode t = [] then languageCode (DEFAULT_LOCALE w) else languageCode t)
   \<and> languageCode (DEFAULT_LOCALE w) = DEFAULT_LOCALE w
   \<and> DEFAULT_LOCALE w =
       getLocaleFromLanguage (case deviceLanguageTag w of
                                None \<Rightarrow> PRIMARY_LOCALE
                              | Some t \<Rightarrow> if t = [] then PRIMARY_LOCALE else t)"
  by (simp add: resetMomentLocale_def moment_locale_def orDefault_def DEFAULT_LOCALE_def
      deviceLocale_def languageCode_canonical split: option.splits)

theorem resetMomentLocale_sets_witness:
  "momentLocale (resetMomentLocale (Some (ascii ''en-US'')) (example_world noneBroken)) =
     ascii ''en''
   \<and> momentLocale (resetMomentLocale None (example_world noneBroken)) = ascii ''fa''"
proof -
  have "languageCode (ascii ''en-US'') = ascii ''en''" by (simp add: eval_defs)
  moreover have "DEFAULT_LOCALE (example_world noneBroken) = ascii ''fa''" by (simp add: eval_defs)
  ultimately show ?thesis
    using resetMomentLocale_sets [of "Some (ascii ''en-US'')" "example_world noneBroken"]
      resetMomentLocale_sets [of None "example_world noneBroken"]
    by (simp add: ascii_def)
qed

text \<open>
  The tag \<open>de-DE\<close> resolves to \<open>fa\<close>, and the date library is set to \<open>de\<close>.
\<close>

theorem resetMomentLocale_resolved_counterexample:
  "momentLocale (resetMomentLocale (Some (ascii ''de-DE'')) (example_world noneBroken)) = ascii ''de''
   \<and> languageCode (getLocaleFromLanguage (ascii ''de-DE'')) = ascii ''fa''
   \<and> momentLocale (resetMomentLocale (Some (ascii ''de-DE'')) (example_world noneBroken)) \<noteq>
       languageCode (getLocaleFromLanguage (ascii ''de-DE''))"
  by (simp add: eval_defs)

end
